theory Spec2Isabelle
  imports Complex_Main
begin

section \<open>The virtualized Select widget (src/component/select/Select.tsx)\<close>

text \<open>
  The component is a React function component. Its pure derivations (selected option,
  window of rendered rows, styles) are HOL functions of the props and of the hook state;
  its event handlers and effects are state transformers on the hook state and on the part
  of the browser the component touches (the dropdown element's scroll offset, the option
  rows React keeps and leaves in the DOM, the document's mousedown listeners, the children
  of the document body, the calls of the \<^verbatim>\<open>onChange\<close> prop). An exception leaving an effect is the left summand of the result.
\<close>

subsection \<open>Values and strict equality\<close>

text \<open>
  \<^verbatim>\<open>value: unknown\<close>: a JavaScript value. Finite numbers are rationals (every double is
  one; \<open>+0\<close> and \<open>-0\<close> are the same number under \<^verbatim>\<open>===\<close>), objects are their identity.
\<close>

datatype js_number = NaN | Finite rat | PosInfinity | NegInfinity

datatype js_value =
    JUndefined
  | JNull
  | JBoolean bool
  | JNumber js_number
  | JString string
  | JObject nat

text \<open>\<^verbatim>\<open>a === b\<close>: equality of the same kind of value, except that NaN equals nothing.\<close>

fun strict_eq :: "js_value \<Rightarrow> js_value \<Rightarrow> bool" where
  "strict_eq (JNumber a) (JNumber b) = (a \<noteq> NaN \<and> b \<noteq> NaN \<and> a = b)"
| "strict_eq a b = (a = b)"

text \<open>
  What the environment answers. For a measurement: \<^verbatim>\<open>getComputedStyle(document.body)\<close>
  (\<open>None\<close> when the host gives no style object, so that reading \<^verbatim>\<open>.fontFamily\<close> throws)
  and the \<^verbatim>\<open>offsetWidth\<close> of the probe span for a given text. For \<^verbatim>\<open>String(value)\<close>:
  the string of a finite number (\<^verbatim>\<open>Number::toString\<close>) and the string an object converts
  to (its \<^verbatim>\<open>toString\<close>), by the object's identity. Both are parameters: what is proved
  below holds for every such pair of functions.
\<close>

record computed_style =
  fontFamily :: string
  fontSize :: string

record host =
  getComputedStyle :: "computed_style option"
  offsetWidth :: "string \<Rightarrow> nat"
  numberToString :: "rat \<Rightarrow> string"
  objectToString :: "nat \<Rightarrow> string"

text \<open>\<^verbatim>\<open>String(v)\<close>.\<close>

fun js_String :: "host \<Rightarrow> js_value \<Rightarrow> string" where
  "js_String h JUndefined = ''undefined''"
| "js_String h JNull = ''null''"
| "js_String h (JBoolean b) = (if b then ''true'' else ''false'')"
| "js_String h (JNumber NaN) = ''NaN''"
| "js_String h (JNumber (Finite r)) = numberToString h r"
| "js_String h (JNumber PosInfinity) = ''Infinity''"
| "js_String h (JNumber NegInfinity) = ''-Infinity''"
| "js_String h (JString s) = s"
| "js_String h (JObject a) = objectToString h a"

subsection \<open>Props, hook state, array helpers\<close>

text \<open>\<^verbatim>\<open>interface SelectOption { value: unknown; label: string }\<close>\<close>

record SelectOption =
  opt_value :: js_value
  opt_label :: string

text \<open>
  \<^verbatim>\<open>SelectProps\<close>. \<open>cur_value\<close> is the prop \<^verbatim>\<open>value\<close>; \<open>options_ref\<close> is the identity of
  the array object passed as \<^verbatim>\<open>options\<close>, which is what React compares in a dependency
  list; \<^verbatim>\<open>onChange\<close> is not a field: its calls are recorded in the browser state.
\<close>

record SelectProps =
  cur_value :: js_value
  options :: "SelectOption list"
  options_ref :: nat
  placeholder :: "string option"
  className :: "string option"

text \<open>The three \<^verbatim>\<open>useState\<close> cells.\<close>

record select_state =
  isOpen :: bool
  maxDropdownWidth :: nat
  visibleStartIndex :: int

definition initial_state :: select_state where
  "initial_state = \<lparr>isOpen = False, maxDropdownWidth = 0, visibleStartIndex = 0\<rparr>"

definition itemHeight :: int where
  "itemHeight = 36"

definition visibleItems :: int where
  "visibleItems = 10"

definition bufferItems :: int where
  "bufferItems = 5"

text \<open>\<^verbatim>\<open>Array.prototype.findIndex\<close>: the first index whose element passes, \<open>-1\<close> if none.\<close>

fun findIndex :: "('a \<Rightarrow> bool) \<Rightarrow> 'a list \<Rightarrow> int" where
  "findIndex P [] = - 1"
| "findIndex P (x # xs) =
     (if P x then 0 else (let r = findIndex P xs in if r < 0 then - 1 else r + 1))"

text \<open>
  \<^verbatim>\<open>Array.prototype.slice(start, end)\<close> on integer arguments: a negative argument counts
  from the end, both are clamped to the array, and an empty range gives the empty array.
\<close>

definition js_slice :: "'a list \<Rightarrow> int \<Rightarrow> int \<Rightarrow> 'a list" where
  "js_slice xs start end' =
     (let len = int (length xs);
          k = (if start < 0 then max (len + start) 0 else min start len);
          final = (if end' < 0 then max (len + end') 0 else min end' len)
      in take (nat (final - k)) (drop (nat k) xs))"

subsection \<open>Derived values of one render\<close>

definition selectedOption :: "SelectProps \<Rightarrow> SelectOption option" where
  "selectedOption p = find (\<lambda>opt. strict_eq (opt_value opt) (cur_value p)) (options p)"

definition selectedIndex :: "SelectProps \<Rightarrow> int" where
  "selectedIndex p = findIndex (\<lambda>opt. strict_eq (opt_value opt) (cur_value p)) (options p)"

definition totalHeight :: "SelectProps \<Rightarrow> int" where
  "totalHeight p = int (length (options p)) * itemHeight"

definition visibleOptionsEndIndex :: "SelectProps \<Rightarrow> select_state \<Rightarrow> int" where
  "visibleOptionsEndIndex p s =
     min (visibleStartIndex s + visibleItems + bufferItems) (int (length (options p)))"

definition visibleOptions :: "SelectProps \<Rightarrow> select_state \<Rightarrow> SelectOption list" where
  "visibleOptions p s =
     js_slice (options p) (max 0 (visibleStartIndex s - bufferItems))
       (visibleOptionsEndIndex p s)"

subsection \<open>The rendered tree\<close>

datatype css_width = Auto | Px nat

text \<open>
  One \<^verbatim>\<open>div.ace-select-option\<close>: its React key, the class \<^verbatim>\<open>selected\<close>, the style's
  \<^verbatim>\<open>top\<close> and \<^verbatim>\<open>height\<close> in pixels, the text, and the value its click handler passes
  to \<^verbatim>\<open>onChange\<close>.
\<close>

record option_row =
  row_key :: string
  row_selected :: bool
  row_top :: int
  row_height :: int
  row_label :: string
  row_click_value :: js_value

record dropdown_view =
  dropdown_width :: css_width
  container_height :: int
  rows :: "option_row list"

record select_view =
  control_open :: bool
  control_width :: css_width
  control_text :: string
  dropdown :: "dropdown_view option"

definition default_placeholder :: string where
  "default_placeholder = ''Select an option''"

definition placeholder_text :: "SelectProps \<Rightarrow> string" where
  "placeholder_text p = (case placeholder p of None \<Rightarrow> default_placeholder | Some t \<Rightarrow> t)"

text \<open>The body of \<^verbatim>\<open>visibleOptions.map((option, index) => ...)\<close>.\<close>

definition render_option ::
  "host \<Rightarrow> SelectProps \<Rightarrow> select_state \<Rightarrow> nat \<times> SelectOption \<Rightarrow> option_row" where
  "render_option h p s = (\<lambda>(index, option).
     (let actualIndex = max 0 (visibleStartIndex s - bufferItems) + int index;
          isSelected = strict_eq (opt_value option) (cur_value p)
      in \<lparr>row_key = js_String h (opt_value option),
          row_selected = isSelected,
          row_top = actualIndex * itemHeight,
          row_height = itemHeight,
          row_label = opt_label option,
          row_click_value = opt_value option\<rparr>))"

definition render_rows :: "host \<Rightarrow> SelectProps \<Rightarrow> select_state \<Rightarrow> option_row list" where
  "render_rows h p s = map (render_option h p s) (enumerate 0 (visibleOptions p s))"

definition render :: "host \<Rightarrow> SelectProps \<Rightarrow> select_state \<Rightarrow> select_view" where
  "render h p s =
     \<lparr>control_open = isOpen s,
      control_width =
        (if isOpen s \<and> maxDropdownWidth s > 0 then Px (maxDropdownWidth s) else Auto),
      control_text =
        (case selectedOption p of Some opt \<Rightarrow> opt_label opt | None \<Rightarrow> placeholder_text p),
      dropdown =
        (if isOpen s
         then Some \<lparr>dropdown_width =
                      (if maxDropdownWidth s > 0 then Px (maxDropdownWidth s) else Auto),
                    container_height = totalHeight p,
                    rows = render_rows h p s\<rparr>
         else None)\<rparr>"

subsection \<open>The browser around the component\<close>

text \<open>
  The mutable browser state the component reaches: the child nodes of \<^verbatim>\<open>document.body\<close>
  (node identities), the counter from which \<^verbatim>\<open>document.createElement\<close> takes the next
  identity, the mousedown listeners of the document (handler identities), whether
  \<^verbatim>\<open>selectRef.current\<close> is attached, the \<^verbatim>\<open>scrollTop\<close> of the element behind
  \<^verbatim>\<open>dropdownRef.current\<close> (\<open>None\<close> while the dropdown is not in the tree), the
  arguments of the calls of \<^verbatim>\<open>onChange\<close> so far, oldest first, and the option rows in
  the DOM of the options container: those React holds as the container's children (the
  rows of the last commit, in their order), and those React has lost track of without
  removing them, which stay in the DOM as they were last rendered.
\<close>

record browser =
  body_children :: "nat list"
  next_node :: nat
  mousedown_listeners :: "nat list"
  selectRef :: bool
  dropdownRef :: "rat option"
  onChange_calls :: "js_value list"
  option_fibers :: "option_row list"
  stale_rows :: "option_row list"

text \<open>All option rows in the DOM; they are positioned absolutely, their order shows nowhere.\<close>

definition dom_rows :: "browser \<Rightarrow> option_row list" where
  "dom_rows b = option_fibers b @ stale_rows b"

datatype error = TypeError

subsection \<open>Event handlers\<close>

text \<open>\<^verbatim>\<open>handleScroll\<close>, given \<^verbatim>\<open>e.currentTarget.scrollTop\<close>.\<close>

definition handleScroll :: "rat \<Rightarrow> select_state \<Rightarrow> select_state" where
  "handleScroll scrollTop s =
     (let newStartIndex = \<lfloor>scrollTop / of_int itemHeight\<rfloor>
      in s\<lparr>visibleStartIndex := newStartIndex\<rparr>)"

text \<open>
  \<^verbatim>\<open>handleClickOutside\<close>; the first argument is
  \<^verbatim>\<open>selectRef.current.contains(event.target)\<close>.
\<close>

definition handleClickOutside :: "bool \<Rightarrow> browser \<Rightarrow> select_state \<Rightarrow> select_state" where
  "handleClickOutside target_inside b s =
     (if selectRef b \<and> \<not> target_inside then s\<lparr>isOpen := False\<rparr> else s)"

text \<open>The \<^verbatim>\<open>onClick\<close> of the closed control.\<close>

definition control_click :: "select_state \<Rightarrow> select_state" where
  "control_click s = s\<lparr>isOpen := \<not> isOpen s\<rparr>"

text \<open>The \<^verbatim>\<open>onClick\<close> of a rendered option row: \<^verbatim>\<open>onChange(option.value); setIsOpen(false)\<close>.\<close>

definition option_click :: "option_row \<Rightarrow> select_state \<times> browser \<Rightarrow> select_state \<times> browser" where
  "option_click r = (\<lambda>(s, b).
     (s\<lparr>isOpen := False\<rparr>, b\<lparr>onChange_calls := onChange_calls b @ [row_click_value r]\<rparr>))"

subsection \<open>Effects\<close>

text \<open>
  The effect with dependencies \<^verbatim>\<open>[isOpen, selectedIndex, itemHeight, visibleItems]\<close>.
  The assignment to \<^verbatim>\<open>scrollTop\<close> is recorded as written; the clamping a browser
  applies to it depends on the layout and is outside this model.
\<close>

definition open_scroll_effect ::
  "SelectProps \<Rightarrow> select_state \<times> browser \<Rightarrow> select_state \<times> browser" where
  "open_scroll_effect p = (\<lambda>(s, b).
     if isOpen s \<and> dropdownRef b \<noteq> None \<and> selectedIndex p \<ge> 0
     then (let scrollPosition = selectedIndex p * itemHeight
           in (s\<lparr>visibleStartIndex :=
                    max 0 (selectedIndex p - \<lfloor>(of_int visibleItems :: rat) / 2\<rfloor>)\<rparr>,
               b\<lparr>dropdownRef := Some (of_int scrollPosition)\<rparr>))
     else (s, b))"

text \<open>
  The effect with dependencies \<^verbatim>\<open>[]\<close>: \<^verbatim>\<open>addEventListener\<close> (which ignores a
  listener that is already registered) and, as its cleanup, \<^verbatim>\<open>removeEventListener\<close>.
\<close>

definition addEventListener :: "nat \<Rightarrow> browser \<Rightarrow> browser" where
  "addEventListener h b =
     (if h \<in> set (mousedown_listeners b) then b
      else b\<lparr>mousedown_listeners := mousedown_listeners b @ [h]\<rparr>)"

definition removeEventListener :: "nat \<Rightarrow> browser \<Rightarrow> browser" where
  "removeEventListener h b = b\<lparr>mousedown_listeners := remove1 h (mousedown_listeners b)\<rparr>"

text \<open>The \<^verbatim>\<open>options.forEach\<close> loop of the measurement, with \<^verbatim>\<open>maxWidth\<close> as accumulator.\<close>

fun measure_labels :: "host \<Rightarrow> SelectOption list \<Rightarrow> nat \<Rightarrow> nat" where
  "measure_labels h [] maxWidth = maxWidth"
| "measure_labels h (option # rest) maxWidth =
     measure_labels h rest (max maxWidth (offsetWidth h (opt_label option) + 20))"

text \<open>
  The effect with dependencies \<^verbatim>\<open>[options]\<close>. There is no \<^verbatim>\<open>try\<close> in it: when the
  host gives no computed style, reading \<^verbatim>\<open>.fontFamily\<close> throws, after the probe span was
  created and before it is appended.
\<close>

definition measure_effect ::
  "host \<Rightarrow> SelectProps \<Rightarrow> select_state \<times> browser
     \<Rightarrow> (error \<times> browser) + (select_state \<times> browser)" where
  "measure_effect h p = (\<lambda>(s, b).
     if length (options p) > 0
     then (let tempSpan = next_node b;
               b1 = b\<lparr>next_node := Suc (next_node b)\<rparr>
           in case getComputedStyle h of
                None \<Rightarrow> Inl (TypeError, b1)
              | Some style \<Rightarrow>
                  (let b2 = b1\<lparr>body_children := body_children b1 @ [tempSpan]\<rparr>;
                       maxWidth = measure_labels h (options p) 0;
                       b3 = b2\<lparr>body_children := remove1 tempSpan (body_children b2)\<rparr>
                   in Inr (s\<lparr>maxDropdownWidth := maxWidth\<rparr>, b3)))
     else Inr (s, b))"

subsection \<open>Mounting, re-rendering, events\<close>

text \<open>
  A mounted component: the props and hook state of its last render, and the identity of
  the \<^verbatim>\<open>handleClickOutside\<close> closure its mount effect registered.
\<close>

record widget =
  w_props :: SelectProps
  w_state :: select_state
  w_handler :: nat

text \<open>
  Committing a render attaches \<^verbatim>\<open>dropdownRef\<close> to the dropdown element when it is in the
  tree (a new element starts at scroll offset 0) and clears it otherwise.
\<close>

definition attach_dropdown :: "bool \<Rightarrow> browser \<Rightarrow> browser" where
  "attach_dropdown rendered b =
     b\<lparr>dropdownRef := (if rendered then (case dropdownRef b of None \<Rightarrow> Some 0 | Some t \<Rightarrow> Some t)
                         else None)\<rparr>"

text \<open>
  How React reconciles the children of the options container with the rows of a new
  render (\<^verbatim>\<open>reconcileChildrenArray\<close> of the reconciler), as far as it decides which DOM
  nodes stay. The old children and the new rows are walked together while their keys
  agree: such a child is kept and updated. If the new rows end first, the remaining old
  children are removed; if the old children end first, the remaining rows are created. At
  the first disagreement the remaining old children are put into a map from key to child,
  one after the other, so that of several children with one key the last stays in the map;
  each remaining row takes the child with its key out of the map, or is created, and the
  children left in the map are removed. A child that a later child with the same key
  overwrote in the map is neither updated nor removed: its node stays in the DOM as it is.
  The result is the list of these children.
\<close>

fun overwritten :: "option_row list \<Rightarrow> option_row list" where
  "overwritten [] = []"
| "overwritten (child # siblings) =
     (if row_key child \<in> set (map row_key siblings) then child # overwritten siblings
      else overwritten siblings)"

fun reconcileChildrenArray :: "option_row list \<Rightarrow> option_row list \<Rightarrow> option_row list" where
  "reconcileChildrenArray [] newChildren = []"
| "reconcileChildrenArray (oldFiber # siblings) [] = []"
| "reconcileChildrenArray (oldFiber # siblings) (newChild # rest) =
     (if row_key oldFiber = row_key newChild then reconcileChildrenArray siblings rest
      else overwritten (oldFiber # siblings))"

text \<open>
  Committing the rows of a render (\<open>None\<close> when the dropdown is not rendered): without the
  dropdown there are no rows; in a dropdown that was not in the tree before, every row is
  created; otherwise the rows are reconciled with the children React holds.
\<close>

definition commit_rows :: "option_row list option \<Rightarrow> browser \<Rightarrow> browser" where
  "commit_rows rendered b =
     (case rendered of
        None \<Rightarrow> b\<lparr>option_fibers := [], stale_rows := []\<rparr>
      | Some newChildren \<Rightarrow>
          (case dropdownRef b of
             None \<Rightarrow> b\<lparr>option_fibers := newChildren, stale_rows := []\<rparr>
           | Some t \<Rightarrow>
               b\<lparr>option_fibers := newChildren,
                 stale_rows :=
                   stale_rows b @ reconcileChildrenArray (option_fibers b) newChildren\<rparr>))"

text \<open>
  A render with props \<open>p\<close> and hook state \<open>s\<close> after the render recorded in \<open>w\<close>, and
  its commit: the rows go to the DOM, then each effect runs when one of its dependencies
  differs from the last render (\<^verbatim>\<open>itemHeight\<close> and \<^verbatim>\<open>visibleItems\<close> never do), in the
  order of the source. A state the effects have set causes one more render, whose commit
  runs no effect, since no dependency has changed.
\<close>

definition rerender ::
  "host \<Rightarrow> SelectProps \<Rightarrow> select_state \<Rightarrow> widget \<times> browser
     \<Rightarrow> (error \<times> browser) + (widget \<times> browser)" where
  "rerender h p s = (\<lambda>(w, b).
     (let b1 = attach_dropdown (isOpen s)
                 (commit_rows (map_option rows (dropdown (render h p s))) b);
          (s1, b2) =
            (if isOpen s \<noteq> isOpen (w_state w) \<or> selectedIndex p \<noteq> selectedIndex (w_props w)
             then open_scroll_effect p (s, b1) else (s, b1))
      in case (if options_ref p \<noteq> options_ref (w_props w)
               then measure_effect h p (s1, b2) else Inr (s1, b2)) of
           Inl e \<Rightarrow> Inl e
         | Inr (s2, b3) \<Rightarrow>
             Inr (w\<lparr>w_props := p, w_state := s2\<rparr>,
                  if s2 = s then b3
                  else commit_rows (map_option rows (dropdown (render h p s2))) b3)))"

text \<open>A state setter called with the state it already holds causes no render.\<close>

definition set_state ::
  "host \<Rightarrow> select_state \<Rightarrow> widget \<times> browser \<Rightarrow> (error \<times> browser) + (widget \<times> browser)" where
  "set_state h s = (\<lambda>(w, b).
     if s = w_state w then Inr (w, b) else rerender h (w_props w) s (w, b))"

text \<open>
  The first render and its commit: all three effects run, once each (the second run of
  every effect that \<^verbatim>\<open>React.StrictMode\<close> adds in a development build is not modelled).
\<close>

definition mount ::
  "host \<Rightarrow> nat \<Rightarrow> SelectProps \<Rightarrow> browser \<Rightarrow> (error \<times> browser) + (widget \<times> browser)" where
  "mount h handler p b =
     (let b1 = b\<lparr>selectRef := True, dropdownRef := None, option_fibers := [],
                  stale_rows := []\<rparr>;
          (s1, b2) = open_scroll_effect p (initial_state, b1);
          b3 = addEventListener handler b2
      in case measure_effect h p (s1, b3) of
           Inl e \<Rightarrow> Inl e
         | Inr (s2, b4) \<Rightarrow> Inr (\<lparr>w_props = p, w_state = s2, w_handler = handler\<rparr>, b4))"

text \<open>
  Unmounting runs the cleanup of the listener effect, clears the refs and removes the
  widget's nodes.
\<close>

definition unmount :: "widget \<times> browser \<Rightarrow> browser" where
  "unmount = (\<lambda>(w, b).
     (removeEventListener (w_handler w) b)
       \<lparr>selectRef := False, dropdownRef := None, option_fibers := [], stale_rows := []\<rparr>)"

text \<open>
  What can happen to a mounted component: a click on the closed control, a click on the
  \<open>j\<close>-th rendered option row, a click on the \<open>j\<close>-th of the rows React has lost track of
  (its handler is the one it was last rendered with), a mousedown somewhere in the
  document (inside the widget's subtree or not), a scroll of the dropdown to a new offset,
  a render by the parent with new props.
\<close>

datatype event =
    ClickControl
  | ClickOption nat
  | ClickStale nat
  | MouseDown bool
  | Scroll rat
  | NewProps SelectProps

definition handle ::
  "host \<Rightarrow> event \<Rightarrow> widget \<times> browser \<Rightarrow> (error \<times> browser) + (widget \<times> browser)" where
  "handle h e = (\<lambda>(w, b).
     case e of
       ClickControl \<Rightarrow> set_state h (control_click (w_state w)) (w, b)
     | ClickOption j \<Rightarrow>
         (if isOpen (w_state w) \<and> j < length (render_rows h (w_props w) (w_state w))
          then (let (s', b') =
                      option_click (render_rows h (w_props w) (w_state w) ! j) (w_state w, b)
                in set_state h s' (w, b'))
          else Inr (w, b))
     | ClickStale j \<Rightarrow>
         (if isOpen (w_state w) \<and> j < length (stale_rows b)
          then (let (s', b') = option_click (stale_rows b ! j) (w_state w, b)
                in set_state h s' (w, b'))
          else Inr (w, b))
     | MouseDown target_inside \<Rightarrow>
         (if w_handler w \<in> set (mousedown_listeners b)
          then set_state h (handleClickOutside target_inside b (w_state w)) (w, b)
          else Inr (w, b))
     | Scroll scrollTop \<Rightarrow>
         (if isOpen (w_state w) \<and> dropdownRef b \<noteq> None
          then set_state h (handleScroll scrollTop (w_state w)) (w, b\<lparr>dropdownRef := Some scrollTop\<rparr>)
          else Inr (w, b))
     | NewProps p \<Rightarrow> rerender h p (w_state w) (w, b))"

text \<open>A sequence of events, stopping at the first exception.\<close>

fun run ::
  "host \<Rightarrow> event list \<Rightarrow> widget \<times> browser \<Rightarrow> (error \<times> browser) + (widget \<times> browser)" where
  "run h [] c = Inr c"
| "run h (e # es) c = (case handle h e c of Inl x \<Rightarrow> Inl x | Inr c' \<Rightarrow> run h es c')"

subsection \<open>Conditions on option lists and events\<close>

text \<open>
  An option list whose rows have pairwise distinct React keys; an event that brings no
  other option list; a scroll event whose offset is not negative.
\<close>

definition keys_distinct :: "host \<Rightarrow> SelectProps \<Rightarrow> bool" where
  "keys_distinct h p = distinct (map (\<lambda>opt. js_String h (opt_value opt)) (options p))"

fun keyed_event :: "host \<Rightarrow> event \<Rightarrow> bool" where
  "keyed_event h (NewProps p) = keys_distinct h p"
| "keyed_event h e = True"

fun scroll_nonneg :: "event \<Rightarrow> bool" where
  "scroll_nonneg (Scroll scrollTop) = (0 \<le> scrollTop)"
| "scroll_nonneg e = True"

subsection \<open>The cached width as the specification words it\<close>

text \<open>
  The specification's sentence on width sizing, to compare with \<open>measure_labels\<close>: the
  maximum, over the labels of the option list, of the measured width of the label.
\<close>

definition spec_max_label_width :: "host \<Rightarrow> SelectOption list \<Rightarrow> nat" where
  "spec_max_label_width h opts = fold (\<lambda>opt m. max m (offsetWidth h (opt_label opt))) opts 0"

subsection \<open>Concrete inputs\<close>

text \<open>
  Option lists, props, hosts and browsers used to run the definitions on concrete inputs.
  The hosts print a number as the decimal digits of its integer part, which is what
  \<^verbatim>\<open>Number::toString\<close> gives for the integers used here, and convert every object to
  \<^verbatim>\<open>[object Object]\<close>, as plain objects do.
\<close>

fun decimal :: "nat \<Rightarrow> string" where
  "decimal n =
     (if n < 10 then [''0123456789'' ! n]
      else decimal (n div 10) @ [''0123456789'' ! (n mod 10)])"

definition plain_host :: host where
  "plain_host =
     \<lparr>getComputedStyle = Some \<lparr>fontFamily = ''sans-serif'', fontSize = ''16px''\<rparr>,
      offsetWidth = (\<lambda>text. 8 * length text + 24),
      numberToString =
        (\<lambda>r. if r < 0 then CHR ''-'' # decimal (nat \<lfloor>- r\<rfloor>) else decimal (nat \<lfloor>r\<rfloor>)),
      objectToString = (\<lambda>a. ''[object Object]'')\<rparr>"

definition styleless_host :: host where
  "styleless_host = plain_host\<lparr>getComputedStyle := None\<rparr>"

definition seven_options :: "SelectOption list" where
  "seven_options = map (\<lambda>l. \<lparr>opt_value = JString l, opt_label = l\<rparr>)
     [''a'', ''b'', ''c'', ''d'', ''e'', ''f'', ''g'']"

definition seven_props :: "js_value \<Rightarrow> SelectProps" where
  "seven_props v =
     \<lparr>cur_value = v, options = seven_options, options_ref = 1,
      placeholder = None, className = None\<rparr>"

definition seven_widget :: "js_value \<Rightarrow> bool \<Rightarrow> widget" where
  "seven_widget v opened =
     \<lparr>w_props = seven_props v,
      w_state = \<lparr>isOpen = opened, maxDropdownWidth = 52, visibleStartIndex = 0\<rparr>,
      w_handler = 0\<rparr>"

text \<open>
  The browser before the widget is mounted, after its mount, and after its dropdown was
  opened on the seven options with current value \<open>v\<close>.
\<close>

definition fresh_browser :: browser where
  "fresh_browser =
     \<lparr>body_children = [], next_node = 0, mousedown_listeners = [], selectRef = False,
      dropdownRef = None, onChange_calls = [], option_fibers = [], stale_rows = []\<rparr>"

definition mounted_browser :: browser where
  "mounted_browser =
     \<lparr>body_children = [], next_node = 1, mousedown_listeners = [0], selectRef = True,
      dropdownRef = None, onChange_calls = [], option_fibers = [], stale_rows = []\<rparr>"

definition open_browser :: "js_value \<Rightarrow> browser" where
  "open_browser v =
     \<lparr>body_children = [], next_node = 1, mousedown_listeners = [0], selectRef = True,
      dropdownRef = Some 0, onChange_calls = [],
      option_fibers = render_rows plain_host (seven_props v) (w_state (seven_widget v True)),
      stale_rows = []\<rparr>"

definition thousand_props :: SelectProps where
  "thousand_props =
     \<lparr>cur_value = JNull,
      options = replicate 1000 \<lparr>opt_value = JUndefined, opt_label = ''x''\<rparr>,
      options_ref = 2, placeholder = None, className = None\<rparr>"

definition one_option_props :: "js_value \<Rightarrow> string option \<Rightarrow> SelectProps" where
  "one_option_props v text =
     \<lparr>cur_value = v,
      options = [\<lparr>opt_value = JNumber (Finite 1), opt_label = ''A''\<rparr>],
      options_ref = 3, placeholder = text, className = None\<rparr>"

definition duplicate_props :: SelectProps where
  "duplicate_props =
     \<lparr>cur_value = JNumber (Finite 1),
      options = [\<lparr>opt_value = JString ''b'', opt_label = ''B''\<rparr>,
                 \<lparr>opt_value = JNumber (Finite 1), opt_label = ''A''\<rparr>,
                 \<lparr>opt_value = JNumber (Finite 1), opt_label = ''C''\<rparr>],
      options_ref = 4, placeholder = Some ''Pick'', className = None\<rparr>"

definition empty_props :: SelectProps where
  "empty_props =
     \<lparr>cur_value = JString ''a'', options = [], options_ref = 5,
      placeholder = None, className = None\<rparr>"

definition theme_props :: SelectProps where
  "theme_props =
     \<lparr>cur_value = JString ''s'',
      options = [\<lparr>opt_value = JString ''l'', opt_label = ''Light''\<rparr>,
                 \<lparr>opt_value = JString ''s'', opt_label = ''Solarized dark''\<rparr>],
      options_ref = 6, placeholder = None, className = None\<rparr>"

text \<open>
  Forty options: option \<open>i\<close> has the number \<open>i mod 10\<close> as value in \<open>cycle_props\<close>, where
  values and keys repeat, and the number \<open>i\<close> in \<open>forty_props\<close>, where they do not.
\<close>

definition cycle_props :: "js_value \<Rightarrow> SelectProps" where
  "cycle_props v =
     \<lparr>cur_value = v,
      options = map (\<lambda>i. \<lparr>opt_value = JNumber (Finite (of_nat (i mod 10))),
                            opt_label = decimal i\<rparr>) [0..<40],
      options_ref = 7, placeholder = None, className = None\<rparr>"

definition forty_props :: SelectProps where
  "forty_props =
     \<lparr>cur_value = JNull,
      options = map (\<lambda>i. \<lparr>opt_value = JNumber (Finite (of_nat i)), opt_label = decimal i\<rparr>)
                  [0..<40],
      options_ref = 8, placeholder = None, className = None\<rparr>"

text \<open>
  Forty options whose values are pairwise distinct under \<^verbatim>\<open>===\<close> while neighbours share a
  key: the number \<open>m\<close> and the string of \<open>m\<close>, for \<open>m\<close> from 0 to 19.
\<close>

definition mixed_props :: SelectProps where
  "mixed_props =
     \<lparr>cur_value = JNull,
      options = map (\<lambda>i. \<lparr>opt_value = (if even i then JNumber (Finite (of_nat (i div 2)))
                                          else JString (decimal (i div 2))),
                            opt_label = decimal i\<rparr>) [0..<40],
      options_ref = 9, placeholder = None, className = None\<rparr>"

text \<open>A widget on one of the lists of forty options, and its hook state.\<close>

definition state_at :: "bool \<Rightarrow> int \<Rightarrow> select_state" where
  "state_at opened start =
     \<lparr>isOpen = opened, maxDropdownWidth = 60, visibleStartIndex = start\<rparr>"

definition widget_of :: "SelectProps \<Rightarrow> select_state \<Rightarrow> widget" where
  "widget_of p s = \<lparr>w_props = p, w_state = s, w_handler = 0\<rparr>"

section \<open>Properties\<close>

subsection \<open>The window of rendered rows\<close>

lemma take_drop_nth: "take n (drop k xs) = map ((!) xs) [k..<min (k + n) (length xs)]"
  by (auto simp: list_eq_iff_nth_eq)

lemma js_slice_nonneg:
  assumes "0 \<le> a" "0 \<le> e"
  shows "js_slice xs a e = map ((!) xs) [nat a..<nat (min e (int (length xs)))]"
proof -
  let ?len = "int (length xs)"
  let ?k = "nat (min a ?len)"
  let ?n = "nat (min e ?len - min a ?len)"
  have "js_slice xs a e = take ?n (drop ?k xs)"
    using assms by (simp add: js_slice_def Let_def)
  also have "\<dots> = map ((!) xs) [?k..<min (?k + ?n) (length xs)]"
    by (rule take_drop_nth)
  also have "[?k..<min (?k + ?n) (length xs)] = [nat a..<nat (min e ?len)]"
  proof (cases "a \<le> min e ?len")
    case True
    then have "?k = nat a" "min (?k + ?n) (length xs) = nat (min e ?len)"
      using assms by linarith+
    then show ?thesis by simp
  next
    case False
    then have "min (?k + ?n) (length xs) \<le> ?k" "nat (min e ?len) \<le> nat a"
      using assms by linarith+
    then show ?thesis by simp
  qed
  finally show ?thesis .
qed

lemma js_slice_nth:
  assumes "0 \<le> a" "j < length (js_slice xs a e)"
  shows "js_slice xs a e ! j = xs ! (nat a + j)"
proof -
  let ?len = "int (length xs)"
  obtain n where sl: "js_slice xs a e = take n (drop (nat (min a ?len)) xs)"
    using assms(1) by (simp add: js_slice_def Let_def)
  from assms(2) have j: "j < n" "j < length xs - nat (min a ?len)"
    unfolding sl by simp_all
  then have "nat (min a ?len) = nat a" using assms(1) by linarith
  with j show ?thesis unfolding sl by simp
qed

lemma js_slice_index_bound:
  assumes "0 \<le> a" "j < length (js_slice xs a e)"
  shows "nat a + j < length xs"
proof -
  obtain n where sl: "js_slice xs a e = take n (drop (nat (min a (int (length xs)))) xs)"
    using assms(1) by (simp add: js_slice_def Let_def)
  from assms(2) have "j < length xs - nat (min a (int (length xs)))"
    unfolding sl by simp
  then show ?thesis using assms(1) by linarith
qed


lemma enumerate_map_upt:
  "map F (enumerate 0 (map g [lo..<hi])) = map (\<lambda>i. F (i - lo, g i)) [lo..<hi]"
  by (auto simp: list_eq_iff_nth_eq nth_enumerate_eq)

lemma visibleOptions_window:
  assumes "0 \<le> visibleStartIndex s + visibleItems + bufferItems"
  shows "visibleOptions p s =
           map ((!) (options p))
             [nat (max 0 (visibleStartIndex s - bufferItems))..<nat (visibleOptionsEndIndex p s)]"
proof -
  have "0 \<le> visibleOptionsEndIndex p s"
    using assms by (simp add: visibleOptionsEndIndex_def)
  then show ?thesis
    unfolding visibleOptions_def
    by (subst js_slice_nonneg) (simp_all add: visibleOptionsEndIndex_def)
qed

lemma render_rows_window:
  assumes "0 \<le> visibleStartIndex s + visibleItems + bufferItems"
  shows "render_rows h p s =
           map (\<lambda>i. \<lparr>row_key = js_String h (opt_value (options p ! i)),
                row_selected = strict_eq (opt_value (options p ! i)) (cur_value p),
                      row_top = int i * itemHeight,
                      row_height = itemHeight,
                      row_label = opt_label (options p ! i),
                      row_click_value = opt_value (options p ! i)\<rparr>)
             [nat (max 0 (visibleStartIndex s - bufferItems))..<nat (visibleOptionsEndIndex p s)]"
  unfolding render_rows_def visibleOptions_window [OF assms] enumerate_map_upt
  by (rule map_cong) (auto simp: render_option_def Let_def)

lemma render_rows_nth:
  assumes "j < length (render_rows h p s)"
  shows "render_rows h p s ! j =
           (let i = nat (max 0 (visibleStartIndex s - bufferItems)) + j
            in \<lparr>row_key = js_String h (opt_value (options p ! i)),
                row_selected = strict_eq (opt_value (options p ! i)) (cur_value p),
                row_top = int i * itemHeight,
                row_height = itemHeight,
                row_label = opt_label (options p ! i),
                row_click_value = opt_value (options p ! i)\<rparr>)"
proof -
  from assms have j: "j < length (visibleOptions p s)"
    by (simp add: render_rows_def)
  then have "visibleOptions p s ! j = options p ! (nat (max 0 (visibleStartIndex s - bufferItems)) + j)"
    unfolding visibleOptions_def by (intro js_slice_nth) simp_all
  with j show ?thesis
    by (simp add: render_rows_def nth_enumerate_eq render_option_def Let_def)
qed

lemma render_rows_index_bound:
  assumes "j < length (render_rows h p s)"
  shows "nat (max 0 (visibleStartIndex s - bufferItems)) + j < length (options p)"
  using assms unfolding render_rows_def visibleOptions_def
  by (intro js_slice_index_bound [where e = "visibleOptionsEndIndex p s"]) simp_all

lemma visibleOptions_length:
  assumes "0 \<le> visibleStartIndex s"
  shows "int (length (visibleOptions p s)) \<le> visibleItems + 2 * bufferItems"
proof -
  have "0 \<le> visibleStartIndex s + visibleItems + bufferItems"
    using assms by (simp add: visibleItems_def bufferItems_def)
  from visibleOptions_window [OF this, of p] show ?thesis
    using assms
    by (simp add: visibleOptionsEndIndex_def visibleItems_def bufferItems_def)
qed

subsection \<open>The option found for the current value\<close>

lemma findIndex_first:
  "k < length xs \<Longrightarrow> P (xs ! k) \<Longrightarrow> \<forall>x\<in>set (take k xs). \<not> P x \<Longrightarrow> findIndex P xs = int k"
proof (induction xs arbitrary: k)
  case Nil
  then show ?case by simp
next
  case (Cons x xs)
  show ?case
  proof (cases k)
    case 0
    with Cons.prems show ?thesis by simp
  next
    case (Suc m)
    with Cons.prems have "findIndex P xs = int m" "\<not> P x"
      by (auto intro: Cons.IH)
    with Suc show ?thesis by simp
  qed
qed

lemma find_first:
  "k < length xs \<Longrightarrow> P (xs ! k) \<Longrightarrow> \<forall>x\<in>set (take k xs). \<not> P x \<Longrightarrow> find P xs = Some (xs ! k)"
proof (induction xs arbitrary: k)
  case Nil
  then show ?case by simp
next
  case (Cons x xs)
  then show ?case by (cases k) auto
qed

lemma selectedIndex_first:
  assumes "k < length (options p)"
    and "strict_eq (opt_value (options p ! k)) (cur_value p)"
    and "\<forall>opt\<in>set (take k (options p)). \<not> strict_eq (opt_value opt) (cur_value p)"
  shows "selectedIndex p = int k"
  unfolding selectedIndex_def using assms by (intro findIndex_first) simp_all

lemma selectedOption_first:
  assumes "k < length (options p)"
    and "strict_eq (opt_value (options p ! k)) (cur_value p)"
    and "\<forall>opt\<in>set (take k (options p)). \<not> strict_eq (opt_value opt) (cur_value p)"
  shows "selectedOption p = Some (options p ! k)"
  unfolding selectedOption_def using assms by (intro find_first) simp_all

lemma selectedOption_none:
  assumes "\<forall>opt\<in>set (options p). \<not> strict_eq (opt_value opt) (cur_value p)"
  shows "selectedOption p = None"
  unfolding selectedOption_def using assms by (simp add: find_None_iff)

lemma selectedOption_some:
  assumes "selectedOption p = Some opt"
  shows "opt \<in> set (options p) \<and> strict_eq (opt_value opt) (cur_value p)"
  using assms unfolding selectedOption_def by (auto simp: find_Some_iff)

subsection \<open>Keys and reconciliation\<close>

lemma render_rows_keys:
  "map row_key (render_rows h p s) = map (\<lambda>opt. js_String h (opt_value opt)) (visibleOptions p s)"
  by (auto simp: list_eq_iff_nth_eq render_rows_def nth_enumerate_eq render_option_def Let_def)

lemma js_slice_take_drop: "\<exists>n k. js_slice xs a e = take n (drop k xs)"
  unfolding js_slice_def Let_def by blast

lemma render_rows_keys_distinct:
  assumes "keys_distinct h p"
  shows "distinct (map row_key (render_rows h p s))"
proof -
  obtain n k where "visibleOptions p s = take n (drop k (options p))"
    using js_slice_take_drop unfolding visibleOptions_def by blast
  then have "map row_key (render_rows h p s) =
               take n (drop k (map (\<lambda>opt. js_String h (opt_value opt)) (options p)))"
    by (simp add: render_rows_keys take_map drop_map)
  with assms show ?thesis
    by (simp add: keys_distinct_def)
qed

lemma overwritten_distinct: "distinct (map row_key children) \<Longrightarrow> overwritten children = []"
  by (induction children) auto

lemma reconcile_distinct:
  "distinct (map row_key children) \<Longrightarrow> reconcileChildrenArray children newChildren = []"
proof (induction children newChildren rule: reconcileChildrenArray.induct)
  case (3 oldFiber siblings newChild rest)
  then show ?case
    using overwritten_distinct [of "oldFiber # siblings"] by (auto simp del: overwritten.simps)
qed simp_all

lemma rendered_rows:
  "map_option rows (dropdown (render h p s)) = (if isOpen s then Some (render_rows h p s) else None)"
  by (simp add: render_def)

lemma commit_rows_frame [simp]:
  "body_children (commit_rows r b) = body_children b"
  "next_node (commit_rows r b) = next_node b"
  "mousedown_listeners (commit_rows r b) = mousedown_listeners b"
  "selectRef (commit_rows r b) = selectRef b"
  "dropdownRef (commit_rows r b) = dropdownRef b"
  "onChange_calls (commit_rows r b) = onChange_calls b"
  by (simp_all add: commit_rows_def split: option.splits)

lemma commit_rows_fibers [simp]:
  "option_fibers (commit_rows r b) = (case r of None \<Rightarrow> [] | Some new \<Rightarrow> new)"
  by (simp add: commit_rows_def split: option.splits)

lemma commit_rows_stale:
  "stale_rows (commit_rows r b) =
     (case r of
        None \<Rightarrow> []
      | Some new \<Rightarrow>
          (case dropdownRef b of
             None \<Rightarrow> []
           | Some t \<Rightarrow> stale_rows b @ reconcileChildrenArray (option_fibers b) new))"
  by (simp add: commit_rows_def split: option.splits)

lemma attach_dropdown_frame [simp]:
  "body_children (attach_dropdown r b) = body_children b"
  "next_node (attach_dropdown r b) = next_node b"
  "mousedown_listeners (attach_dropdown r b) = mousedown_listeners b"
  "selectRef (attach_dropdown r b) = selectRef b"
  "onChange_calls (attach_dropdown r b) = onChange_calls b"
  "option_fibers (attach_dropdown r b) = option_fibers b"
  "stale_rows (attach_dropdown r b) = stale_rows b"
  by (simp_all add: attach_dropdown_def)

lemma attach_dropdown_ref [simp]:
  "dropdownRef (attach_dropdown True b) \<noteq> None"
  "dropdownRef (attach_dropdown False b) = None"
  by (simp_all add: attach_dropdown_def split: option.splits)

lemma open_scroll_effect_frame:
  assumes "open_scroll_effect p (s, b) = (s', b')"
  shows "body_children b' = body_children b" "next_node b' = next_node b"
    "mousedown_listeners b' = mousedown_listeners b" "selectRef b' = selectRef b"
    "onChange_calls b' = onChange_calls b" "option_fibers b' = option_fibers b"
    "stale_rows b' = stale_rows b" "isOpen s' = isOpen s"
    "maxDropdownWidth s' = maxDropdownWidth s"
    "(dropdownRef b' = None) = (dropdownRef b = None)"
  using assms by (auto simp: open_scroll_effect_def Let_def split: if_splits)

lemma measure_effect_frame:
  assumes "measure_effect h p (s, b) = Inr (s', b')"
  shows "mousedown_listeners b' = mousedown_listeners b" "selectRef b' = selectRef b"
    "onChange_calls b' = onChange_calls b" "option_fibers b' = option_fibers b"
    "stale_rows b' = stale_rows b" "dropdownRef b' = dropdownRef b"
    "isOpen s' = isOpen s" "visibleStartIndex s' = visibleStartIndex s"
  using assms by (auto simp: measure_effect_def Let_def split: if_splits option.splits)

subsection \<open>One render and its commit\<close>

lemma rerender_unfold:
  obtains s1 b2 where
    "(if isOpen s \<noteq> isOpen (w_state w) \<or> selectedIndex p \<noteq> selectedIndex (w_props w)
      then open_scroll_effect p
             (s, attach_dropdown (isOpen s)
                   (commit_rows (map_option rows (dropdown (render h p s))) b))
      else (s, attach_dropdown (isOpen s)
                 (commit_rows (map_option rows (dropdown (render h p s))) b))) = (s1, b2)"
    and "rerender h p s (w, b) =
          (case (if options_ref p \<noteq> options_ref (w_props w) then measure_effect h p (s1, b2)
                 else Inr (s1, b2)) of
             Inl e \<Rightarrow> Inl e
           | Inr (s2, b3) \<Rightarrow>
               Inr (w\<lparr>w_props := p, w_state := s2\<rparr>,
                    if s2 = s then b3
                    else commit_rows (map_option rows (dropdown (render h p s2))) b3))"
proof -
  let ?e = "if isOpen s \<noteq> isOpen (w_state w) \<or> selectedIndex p \<noteq> selectedIndex (w_props w)
      then open_scroll_effect p
             (s, attach_dropdown (isOpen s)
                   (commit_rows (map_option rows (dropdown (render h p s))) b))
      else (s, attach_dropdown (isOpen s)
                 (commit_rows (map_option rows (dropdown (render h p s))) b))"
  obtain s1 b2 where e1: "?e = (s1, b2)"
    by (cases ?e) blast
  have "rerender h p s (w, b) =
          (case (if options_ref p \<noteq> options_ref (w_props w) then measure_effect h p (s1, b2)
                 else Inr (s1, b2)) of
             Inl e \<Rightarrow> Inl e
           | Inr (s2, b3) \<Rightarrow>
               Inr (w\<lparr>w_props := p, w_state := s2\<rparr>,
                    if s2 = s then b3
                    else commit_rows (map_option rows (dropdown (render h p s2))) b3))"
    unfolding rerender_def Let_def prod.case e1 ..
  with e1 that show thesis by blast
qed

text \<open>The state and the browser after the first commit and the first effect.\<close>

lemma rerender_first:
  assumes "(if isOpen s \<noteq> isOpen (w_state w) \<or> selectedIndex p \<noteq> selectedIndex (w_props w)
      then open_scroll_effect p
             (s, attach_dropdown (isOpen s)
                   (commit_rows (map_option rows (dropdown (render h p s))) b))
      else (s, attach_dropdown (isOpen s)
                 (commit_rows (map_option rows (dropdown (render h p s))) b))) = (s1, b2)"
  shows "body_children b2 = body_children b \<and> next_node b2 = next_node b \<and>
    mousedown_listeners b2 = mousedown_listeners b \<and> selectRef b2 = selectRef b \<and>
    onChange_calls b2 = onChange_calls b \<and>
    option_fibers b2 = (if isOpen s then render_rows h p s else []) \<and>
    stale_rows b2 = stale_rows (commit_rows (map_option rows (dropdown (render h p s))) b) \<and>
    isOpen s1 = isOpen s \<and> maxDropdownWidth s1 = maxDropdownWidth s \<and>
    (dropdownRef b2 = None) = (\<not> isOpen s)"
proof -
  let ?b1 = "attach_dropdown (isOpen s)
               (commit_rows (map_option rows (dropdown (render h p s))) b)"
  have b1: "body_children ?b1 = body_children b" "next_node ?b1 = next_node b"
    "mousedown_listeners ?b1 = mousedown_listeners b" "selectRef ?b1 = selectRef b"
    "onChange_calls ?b1 = onChange_calls b"
    "option_fibers ?b1 = (if isOpen s then render_rows h p s else [])"
    "stale_rows ?b1 = stale_rows (commit_rows (map_option rows (dropdown (render h p s))) b)"
    "(dropdownRef ?b1 = None) = (\<not> isOpen s)"
    by (simp_all add: rendered_rows)
  show ?thesis
  proof (cases "isOpen s \<noteq> isOpen (w_state w) \<or> selectedIndex p \<noteq> selectedIndex (w_props w)")
    case True
    with assms have e: "open_scroll_effect p (s, ?b1) = (s1, b2)"
      by (simp only: if_True)
    from open_scroll_effect_frame [OF e] b1 show ?thesis
      by simp
  next
    case False
    with assms have e: "(s, ?b1) = (s1, b2)"
      by (simp only: if_False)
    then have "s1 = s" "b2 = ?b1" by auto
    with b1 show ?thesis
      by simp
  qed
qed


lemma measure_effect_Inr:
  assumes "measure_effect h p (s, b) = Inr (s', b')"
  shows "maxDropdownWidth s' =
           (if options p \<noteq> [] then measure_labels h (options p) 0 else maxDropdownWidth s) \<and>
         next_node b' = (if options p \<noteq> [] then Suc (next_node b) else next_node b) \<and>
         (options p \<noteq> [] \<longrightarrow> getComputedStyle h \<noteq> None)"
  using assms by (auto simp: measure_effect_def Let_def split: if_splits option.splits)

lemma measure_effect_returns:
  assumes "options p = [] \<or> getComputedStyle h \<noteq> None"
  shows "\<exists>s' b'. measure_effect h p (s, b) = Inr (s', b')"
  using assms by (auto simp: measure_effect_def Let_def split: option.splits)

lemma measure_effect_throws:
  assumes "options p \<noteq> []" and "getComputedStyle h = None"
  shows "measure_effect h p (s, b) = Inl (TypeError, b\<lparr>next_node := Suc (next_node b)\<rparr>)"
  using assms by (simp add: measure_effect_def Let_def)

text \<open>What a render that returns has done.\<close>

lemma rerender_Inr:
  assumes "rerender h p s (w, b) = Inr (w', b')"
  obtains s2 where
    "w' = w\<lparr>w_props := p, w_state := s2\<rparr>"
    and "isOpen s2 = isOpen s"
    and "visibleStartIndex s2 =
           (if (isOpen s \<noteq> isOpen (w_state w) \<or> selectedIndex p \<noteq> selectedIndex (w_props w)) \<and>
               isOpen s \<and> 0 \<le> selectedIndex p
            then max 0 (selectedIndex p - \<lfloor>(of_int visibleItems :: rat) / 2\<rfloor>)
            else visibleStartIndex s)"
    and "maxDropdownWidth s2 =
           (if options_ref p \<noteq> options_ref (w_props w) \<and> options p \<noteq> []
            then measure_labels h (options p) 0 else maxDropdownWidth s)"
    and "next_node b' =
           (if options_ref p \<noteq> options_ref (w_props w) \<and> options p \<noteq> []
            then Suc (next_node b) else next_node b)"
    and "mousedown_listeners b' = mousedown_listeners b"
    and "selectRef b' = selectRef b"
    and "onChange_calls b' = onChange_calls b"
    and "(dropdownRef b' = None) = (\<not> isOpen s)"
    and "option_fibers b' = (if isOpen s then render_rows h p s2 else [])"
    and "stale_rows b' =
           (if \<not> isOpen s then []
            else stale_rows (commit_rows (Some (render_rows h p s)) b) @
                 (if s2 = s then []
                  else reconcileChildrenArray (render_rows h p s) (render_rows h p s2)))"
proof -
  obtain s1 b2 where
    e1: "(if isOpen s \<noteq> isOpen (w_state w) \<or> selectedIndex p \<noteq> selectedIndex (w_props w)
      then open_scroll_effect p
             (s, attach_dropdown (isOpen s)
                   (commit_rows (map_option rows (dropdown (render h p s))) b))
      else (s, attach_dropdown (isOpen s)
                 (commit_rows (map_option rows (dropdown (render h p s))) b))) = (s1, b2)"
    and r: "rerender h p s (w, b) =
          (case (if options_ref p \<noteq> options_ref (w_props w) then measure_effect h p (s1, b2)
                 else Inr (s1, b2)) of
             Inl e \<Rightarrow> Inl e
           | Inr (s2, b3) \<Rightarrow>
               Inr (w\<lparr>w_props := p, w_state := s2\<rparr>,
                    if s2 = s then b3
                    else commit_rows (map_option rows (dropdown (render h p s2))) b3))"
    by (rule rerender_unfold)
  note f = rerender_first [OF e1]
  have v1: "visibleStartIndex s1 =
           (if (isOpen s \<noteq> isOpen (w_state w) \<or> selectedIndex p \<noteq> selectedIndex (w_props w)) \<and>
               isOpen s \<and> 0 \<le> selectedIndex p
            then max 0 (selectedIndex p - \<lfloor>(of_int visibleItems :: rat) / 2\<rfloor>)
            else visibleStartIndex s)"
  proof (cases "isOpen s \<noteq> isOpen (w_state w) \<or> selectedIndex p \<noteq> selectedIndex (w_props w)")
    case True
    define b1 where "b1 = attach_dropdown (isOpen s)
                            (commit_rows (map_option rows (dropdown (render h p s))) b)"
    from True e1 have e: "open_scroll_effect p (s, b1) = (s1, b2)"
      unfolding b1_def by (simp only: if_True)
    have "(dropdownRef b1 = None) = (\<not> isOpen s)"
      unfolding b1_def by (cases "isOpen s") simp_all
    with e True show ?thesis
      by (auto simp: open_scroll_effect_def Let_def split: if_splits)
  next
    case False
    with e1 have "s1 = s" by auto
    with False show ?thesis by simp
  qed
  from assms r obtain s2 b3 where
    e2: "(if options_ref p \<noteq> options_ref (w_props w) then measure_effect h p (s1, b2)
          else Inr (s1, b2)) = Inr (s2, b3)"
    and w': "w' = w\<lparr>w_props := p, w_state := s2\<rparr>"
    and b': "b' = (if s2 = s then b3
                   else commit_rows (map_option rows (dropdown (render h p s2))) b3)"
    by (auto split: sum.splits)
  have m: "isOpen s2 = isOpen s1 \<and> visibleStartIndex s2 = visibleStartIndex s1 \<and>
        maxDropdownWidth s2 =
           (if options_ref p \<noteq> options_ref (w_props w) \<and> options p \<noteq> []
            then measure_labels h (options p) 0 else maxDropdownWidth s1) \<and>
        next_node b3 =
           (if options_ref p \<noteq> options_ref (w_props w) \<and> options p \<noteq> []
            then Suc (next_node b2) else next_node b2) \<and>
        mousedown_listeners b3 = mousedown_listeners b2 \<and> selectRef b3 = selectRef b2 \<and>
        onChange_calls b3 = onChange_calls b2 \<and> option_fibers b3 = option_fibers b2 \<and>
        stale_rows b3 = stale_rows b2 \<and> dropdownRef b3 = dropdownRef b2"
  proof (cases "options_ref p \<noteq> options_ref (w_props w)")
    case True
    with e2 have e: "measure_effect h p (s1, b2) = Inr (s2, b3)"
      by simp
    from measure_effect_frame [OF e] measure_effect_Inr [OF e] True show ?thesis
      by simp
  next
    case False
    with e2 have "s2 = s1" "b3 = b2" by auto
    with False show ?thesis by simp
  qed
  have o: "isOpen s2 = isOpen s" using m f by simp
  have st3: "stale_rows b3 =
               (if isOpen s then stale_rows (commit_rows (Some (render_rows h p s)) b) else [])"
    using m f by (simp add: rendered_rows commit_rows_stale)
  have fib3: "option_fibers b3 = (if isOpen s then render_rows h p s else [])"
    using m f by simp
  have d3: "(dropdownRef b3 = None) = (\<not> isOpen s)"
    using m f by simp
  have fib: "option_fibers b' = (if isOpen s then render_rows h p s2 else [])"
    using m f o unfolding b' by (auto simp: rendered_rows)
  have stale: "stale_rows b' =
           (if \<not> isOpen s then []
            else stale_rows (commit_rows (Some (render_rows h p s)) b) @
                 (if s2 = s then []
                  else reconcileChildrenArray (render_rows h p s) (render_rows h p s2)))"
  proof (cases "s2 = s")
    case True
    with st3 show ?thesis unfolding b' by simp
  next
    case False
    show ?thesis
    proof (cases "isOpen s")
      case True
      with d3 obtain t where "dropdownRef b3 = Some t" by auto
      with True False o st3 fib3 show ?thesis
        unfolding b' by (simp add: rendered_rows commit_rows_stale)
    next
      case closed: False
      with False o show ?thesis
        unfolding b' by (simp add: rendered_rows commit_rows_stale)
    qed
  qed
  show thesis
  proof (rule that [of s2])
    show "w' = w\<lparr>w_props := p, w_state := s2\<rparr>" by (fact w')
    show "isOpen s2 = isOpen s" by (fact o)
    show "visibleStartIndex s2 =
           (if (isOpen s \<noteq> isOpen (w_state w) \<or> selectedIndex p \<noteq> selectedIndex (w_props w)) \<and>
               isOpen s \<and> 0 \<le> selectedIndex p
            then max 0 (selectedIndex p - \<lfloor>(of_int visibleItems :: rat) / 2\<rfloor>)
            else visibleStartIndex s)"
      using v1 m by simp
    show "maxDropdownWidth s2 =
           (if options_ref p \<noteq> options_ref (w_props w) \<and> options p \<noteq> []
            then measure_labels h (options p) 0 else maxDropdownWidth s)"
      using m f by simp
    show "next_node b' =
           (if options_ref p \<noteq> options_ref (w_props w) \<and> options p \<noteq> []
            then Suc (next_node b) else next_node b)"
      using m f unfolding b' by simp
    show "mousedown_listeners b' = mousedown_listeners b"
      using m f unfolding b' by simp
    show "selectRef b' = selectRef b"
      using m f unfolding b' by simp
    show "onChange_calls b' = onChange_calls b"
      using m f unfolding b' by simp
    show "(dropdownRef b' = None) = (\<not> isOpen s)"
      using d3 unfolding b' by simp
    show "option_fibers b' = (if isOpen s then render_rows h p s2 else [])" by (fact fib)
    show "stale_rows b' =
           (if \<not> isOpen s then []
            else stale_rows (commit_rows (Some (render_rows h p s)) b) @
                 (if s2 = s then []
                  else reconcileChildrenArray (render_rows h p s) (render_rows h p s2)))"
      by (fact stale)
  qed
qed

text \<open>When a render returns and when it throws.\<close>

lemma rerender_returns:
  assumes "options_ref p = options_ref (w_props w) \<or> options p = [] \<or> getComputedStyle h \<noteq> None"
  shows "\<exists>w' b'. rerender h p s (w, b) = Inr (w', b')"
proof -
  obtain s1 b2 where
    r: "rerender h p s (w, b) =
          (case (if options_ref p \<noteq> options_ref (w_props w) then measure_effect h p (s1, b2)
                 else Inr (s1, b2)) of
             Inl e \<Rightarrow> Inl e
           | Inr (s2, b3) \<Rightarrow>
               Inr (w\<lparr>w_props := p, w_state := s2\<rparr>,
                    if s2 = s then b3
                    else commit_rows (map_option rows (dropdown (render h p s2))) b3))"
    by (rule rerender_unfold)
  show ?thesis
  proof (cases "options_ref p \<noteq> options_ref (w_props w)")
    case True
    with assms obtain s2 b3 where "measure_effect h p (s1, b2) = Inr (s2, b3)"
      using measure_effect_returns [of p h s1 b2] by blast
    with True show ?thesis unfolding r by simp
  next
    case False
    then show ?thesis unfolding r by simp
  qed
qed

lemma rerender_throws:
  assumes "options_ref p \<noteq> options_ref (w_props w)" and "options p \<noteq> []"
    and "getComputedStyle h = None"
  shows "\<exists>b'. rerender h p s (w, b) = Inl (TypeError, b')"
proof -
  obtain s1 b2 where
    r: "rerender h p s (w, b) =
          (case (if options_ref p \<noteq> options_ref (w_props w) then measure_effect h p (s1, b2)
                 else Inr (s1, b2)) of
             Inl e \<Rightarrow> Inl e
           | Inr (s2, b3) \<Rightarrow>
               Inr (w\<lparr>w_props := p, w_state := s2\<rparr>,
                    if s2 = s then b3
                    else commit_rows (map_option rows (dropdown (render h p s2))) b3))"
    by (rule rerender_unfold)
  from assms show ?thesis
    unfolding r by (simp add: measure_effect_throws)
qed


subsection \<open>One event\<close>

text \<open>
  Every event either leaves the widget as it is or ends in one render; before that, the
  handler has changed at most the scroll offset and the calls of \<^verbatim>\<open>onChange\<close>.
\<close>

lemma handle_cases:
  obtains p s b0 where
    "handle h e (w, b) = Inr (w, b0) \<or> handle h e (w, b) = rerender h p s (w, b0)"
    and "e = NewProps p \<or> p = w_props w \<and> (\<forall>q. e \<noteq> NewProps q)"
    and "maxDropdownWidth s = maxDropdownWidth (w_state w)"
    and "visibleStartIndex s = visibleStartIndex (w_state w) \<or>
         (\<exists>t. e = Scroll t \<and> visibleStartIndex s = \<lfloor>t / of_int itemHeight\<rfloor>)"
    and "body_children b0 = body_children b"
    and "next_node b0 = next_node b"
    and "mousedown_listeners b0 = mousedown_listeners b"
    and "selectRef b0 = selectRef b"
    and "option_fibers b0 = option_fibers b"
    and "stale_rows b0 = stale_rows b"
    and "(dropdownRef b0 = None) = (dropdownRef b = None)"
proof (cases e)
  case ClickControl
  have "handle h e (w, b) = Inr (w, b) \<or>
        handle h e (w, b) = rerender h (w_props w) (control_click (w_state w)) (w, b)"
    unfolding ClickControl by (simp add: handle_def set_state_def)
  then show thesis
    by (rule that [of b _ "control_click (w_state w)"]) (use ClickControl in \<open>simp_all add: control_click_def\<close>)
next
  case (ClickOption j)
  let ?b = "b\<lparr>onChange_calls := onChange_calls b @
              [row_click_value (render_rows h (w_props w) (w_state w) ! j)]\<rparr>"
  have "handle h e (w, b) = Inr (w, b) \<or> handle h e (w, b) = Inr (w, ?b) \<or>
        handle h e (w, b) = rerender h (w_props w) ((w_state w)\<lparr>isOpen := False\<rparr>) (w, ?b)"
    unfolding ClickOption by (simp add: handle_def set_state_def option_click_def)
  then consider "handle h e (w, b) = Inr (w, b)"
    | "handle h e (w, b) = Inr (w, ?b) \<or>
       handle h e (w, b) = rerender h (w_props w) ((w_state w)\<lparr>isOpen := False\<rparr>) (w, ?b)"
    by blast
  then show thesis
  proof cases
    case 1
    then have "handle h e (w, b) = Inr (w, b) \<or>
               handle h e (w, b) = rerender h (w_props w) (w_state w) (w, b)"
      by simp
    then show thesis
      by (rule that [of b _ "w_state w"]) (use ClickOption in \<open>simp_all\<close>)
  next
    case 2
    then show thesis
      by (rule that [of ?b _ "(w_state w)\<lparr>isOpen := False\<rparr>"]) (use ClickOption in \<open>simp_all\<close>)
  qed
next
  case (ClickStale j)
  let ?b = "b\<lparr>onChange_calls := onChange_calls b @ [row_click_value (stale_rows b ! j)]\<rparr>"
  have "handle h e (w, b) = Inr (w, b) \<or> handle h e (w, b) = Inr (w, ?b) \<or>
        handle h e (w, b) = rerender h (w_props w) ((w_state w)\<lparr>isOpen := False\<rparr>) (w, ?b)"
    unfolding ClickStale by (simp add: handle_def set_state_def option_click_def)
  then consider "handle h e (w, b) = Inr (w, b)"
    | "handle h e (w, b) = Inr (w, ?b) \<or>
       handle h e (w, b) = rerender h (w_props w) ((w_state w)\<lparr>isOpen := False\<rparr>) (w, ?b)"
    by blast
  then show thesis
  proof cases
    case 1
    then have "handle h e (w, b) = Inr (w, b) \<or>
               handle h e (w, b) = rerender h (w_props w) (w_state w) (w, b)"
      by simp
    then show thesis
      by (rule that [of b _ "w_state w"]) (use ClickStale in \<open>simp_all\<close>)
  next
    case 2
    then show thesis
      by (rule that [of ?b _ "(w_state w)\<lparr>isOpen := False\<rparr>"]) (use ClickStale in \<open>simp_all\<close>)
  qed
next
  case (MouseDown inside)
  have "handle h e (w, b) = Inr (w, b) \<or>
        handle h e (w, b) =
          rerender h (w_props w) (handleClickOutside inside b (w_state w)) (w, b)"
    unfolding MouseDown by (simp add: handle_def set_state_def)
  then show thesis
    by (rule that [of b _ "handleClickOutside inside b (w_state w)"]) (use MouseDown in \<open>simp_all add: handleClickOutside_def\<close>)
next
  case (Scroll t)
  let ?b = "b\<lparr>dropdownRef := Some t\<rparr>"
  have "handle h e (w, b) = Inr (w, b) \<or> handle h e (w, b) = Inr (w, ?b) \<and> dropdownRef b \<noteq> None \<or>
        handle h e (w, b) = rerender h (w_props w) (handleScroll t (w_state w)) (w, ?b)
          \<and> dropdownRef b \<noteq> None"
    unfolding Scroll by (simp add: handle_def set_state_def)
  then consider "handle h e (w, b) = Inr (w, b)"
    | "(handle h e (w, b) = Inr (w, ?b) \<or>
        handle h e (w, b) = rerender h (w_props w) (handleScroll t (w_state w)) (w, ?b))"
      "dropdownRef b \<noteq> None"
    by blast
  then show thesis
  proof cases
    case 1
    then have "handle h e (w, b) = Inr (w, b) \<or>
               handle h e (w, b) = rerender h (w_props w) (w_state w) (w, b)"
      by simp
    then show thesis
      by (rule that [of b _ "w_state w"]) (use Scroll in \<open>simp_all\<close>)
  next
    case 2
    from 2(1) show thesis
      by (rule that [of ?b _ "handleScroll t (w_state w)"]) (use Scroll 2(2) in \<open>simp_all add: handleScroll_def Let_def\<close>)
  qed
next
  case (NewProps p)
  have "handle h e (w, b) = Inr (w, b) \<or> handle h e (w, b) = rerender h p (w_state w) (w, b)"
    unfolding NewProps by (simp add: handle_def)
  then show thesis
    by (rule that [of b _ "w_state w"]) (use NewProps in \<open>simp_all\<close>)
qed


text \<open>What every event keeps.\<close>

lemma handle_frame:
  assumes "handle h e (w, b) = Inr (w', b')"
  shows "mousedown_listeners b' = mousedown_listeners b \<and> selectRef b' = selectRef b \<and>
         w_handler w' = w_handler w"
proof -
  obtain p s b0 where
    c: "handle h e (w, b) = Inr (w, b0) \<or> handle h e (w, b) = rerender h p s (w, b0)"
    and f: "mousedown_listeners b0 = mousedown_listeners b" "selectRef b0 = selectRef b"
    by (rule handle_cases)
  from c show ?thesis
  proof
    assume "handle h e (w, b) = Inr (w, b0)"
    with assms f show ?thesis by simp
  next
    assume "handle h e (w, b) = rerender h p s (w, b0)"
    with assms have "rerender h p s (w, b0) = Inr (w', b')" by simp
    then show ?thesis
      by (rule rerender_Inr) (use f in simp)
  qed
qed

text \<open>The start index stays non-negative under scroll offsets that are.\<close>

lemma handle_start:
  assumes "handle h e (w, b) = Inr (w', b')"
    and "scroll_nonneg e" and "0 \<le> visibleStartIndex (w_state w)"
  shows "0 \<le> visibleStartIndex (w_state w')"
proof -
  obtain p s b0 where
    c: "handle h e (w, b) = Inr (w, b0) \<or> handle h e (w, b) = rerender h p s (w, b0)"
    and v: "visibleStartIndex s = visibleStartIndex (w_state w) \<or>
         (\<exists>t. e = Scroll t \<and> visibleStartIndex s = \<lfloor>t / of_int itemHeight\<rfloor>)"
    by (rule handle_cases)
  from v assms(2,3) have s: "0 \<le> visibleStartIndex s"
    by (auto simp: itemHeight_def)
  from c show ?thesis
  proof
    assume "handle h e (w, b) = Inr (w, b0)"
    with assms show ?thesis by simp
  next
    assume "handle h e (w, b) = rerender h p s (w, b0)"
    with assms have "rerender h p s (w, b0) = Inr (w', b')" by simp
    then show ?thesis
      by (rule rerender_Inr) (use s in auto)
  qed
qed

text \<open>
  The children React holds are the rows of the last render, and the dropdown is in the
  tree exactly while the widget is open.
\<close>

lemma handle_fibers:
  assumes "handle h e (w, b) = Inr (w', b')"
    and "option_fibers b =
           (if isOpen (w_state w) then render_rows h (w_props w) (w_state w) else [])"
    and "(dropdownRef b = None) = (\<not> isOpen (w_state w))"
  shows "option_fibers b' =
           (if isOpen (w_state w') then render_rows h (w_props w') (w_state w') else []) \<and>
         (dropdownRef b' = None) = (\<not> isOpen (w_state w'))"
proof -
  obtain p s b0 where
    c: "handle h e (w, b) = Inr (w, b0) \<or> handle h e (w, b) = rerender h p s (w, b0)"
    and f: "option_fibers b0 = option_fibers b" "(dropdownRef b0 = None) = (dropdownRef b = None)"
    by (rule handle_cases)
  from c show ?thesis
  proof
    assume "handle h e (w, b) = Inr (w, b0)"
    with assms f show ?thesis by simp
  next
    assume "handle h e (w, b) = rerender h p s (w, b0)"
    with assms have "rerender h p s (w, b0) = Inr (w', b')" by simp
    then show ?thesis
      by (rule rerender_Inr) simp
  qed
qed

text \<open>No row goes stale while the option lists have distinct keys.\<close>

lemma handle_stale:
  assumes "handle h e (w, b) = Inr (w', b')"
    and "keyed_event h e" and "keys_distinct h (w_props w)"
    and "option_fibers b =
           (if isOpen (w_state w) then render_rows h (w_props w) (w_state w) else [])"
    and "stale_rows b = []"
  shows "stale_rows b' = [] \<and> keys_distinct h (w_props w')"
proof -
  obtain p s b0 where
    c: "handle h e (w, b) = Inr (w, b0) \<or> handle h e (w, b) = rerender h p s (w, b0)"
    and p: "e = NewProps p \<or> p = w_props w \<and> (\<forall>q. e \<noteq> NewProps q)"
    and f: "option_fibers b0 = option_fibers b" "stale_rows b0 = stale_rows b"
    by (rule handle_cases)
  from p assms(2,3) have kp: "keys_distinct h p" by auto
  have old: "distinct (map row_key (option_fibers b0))"
    using assms(3,4) f by (simp add: render_rows_keys_distinct)
  from c show ?thesis
  proof
    assume "handle h e (w, b) = Inr (w, b0)"
    with assms f show ?thesis by simp
  next
    assume "handle h e (w, b) = rerender h p s (w, b0)"
    with assms have "rerender h p s (w, b0) = Inr (w', b')" by simp
    then show ?thesis
    proof (rule rerender_Inr)
      fix s2
      assume w': "w' = w\<lparr>w_props := p, w_state := s2\<rparr>"
        and st: "stale_rows b' =
           (if \<not> isOpen s then []
            else stale_rows (commit_rows (Some (render_rows h p s)) b0) @
                 (if s2 = s then []
                  else reconcileChildrenArray (render_rows h p s) (render_rows h p s2)))"
      have 1: "stale_rows (commit_rows (Some (render_rows h p s)) b0) = []"
        using old f assms(5) by (simp add: commit_rows_stale reconcile_distinct split: option.splits)
      have 2: "reconcileChildrenArray (render_rows h p s) (render_rows h p s2) = []"
        using kp by (intro reconcile_distinct render_rows_keys_distinct)
      from st 1 2 w' kp show ?thesis by simp
    qed
  qed
qed

subsection \<open>From the mount through a sequence of events\<close>

lemma mount_Inr:
  assumes "mount h handler p b0 = Inr (w, b)"
  shows "w_props w = p \<and> w_handler w = handler \<and> \<not> isOpen (w_state w) \<and>
         visibleStartIndex (w_state w) = 0 \<and>
         mousedown_listeners b =
           (if handler \<in> set (mousedown_listeners b0) then mousedown_listeners b0
            else mousedown_listeners b0 @ [handler]) \<and>
         selectRef b \<and> dropdownRef b = None \<and> option_fibers b = [] \<and> stale_rows b = [] \<and>
         onChange_calls b = onChange_calls b0"
proof -
  let ?b1 = "b0\<lparr>selectRef := True, dropdownRef := None, option_fibers := [], stale_rows := []\<rparr>"
  have e1: "open_scroll_effect p (initial_state, ?b1) = (initial_state, ?b1)"
    by (simp add: open_scroll_effect_def initial_state_def)
  with assms obtain s2 where
    m: "measure_effect h p (initial_state, addEventListener handler ?b1) = Inr (s2, b)"
    and w: "w = \<lparr>w_props = p, w_state = s2, w_handler = handler\<rparr>"
    by (auto simp: mount_def Let_def split: sum.splits)
  from measure_effect_frame [OF m] w show ?thesis
    by (simp add: addEventListener_def initial_state_def)
qed

lemma run_frame:
  assumes "run h es (w, b) = Inr (w', b')"
  shows "mousedown_listeners b' = mousedown_listeners b \<and> selectRef b' = selectRef b \<and>
         w_handler w' = w_handler w"
  using assms
proof (induction es arbitrary: w b)
  case Nil
  then show ?case by simp
next
  case (Cons e es)
  then obtain w1 b1 where h1: "handle h e (w, b) = Inr (w1, b1)"
    and r: "run h es (w1, b1) = Inr (w', b')"
    by (auto split: sum.splits)
  from handle_frame [OF h1] Cons.IH [OF r] show ?case by simp
qed

lemma run_start:
  assumes "run h es (w, b) = Inr (w', b')"
    and "list_all scroll_nonneg es" and "0 \<le> visibleStartIndex (w_state w)"
  shows "0 \<le> visibleStartIndex (w_state w')"
  using assms
proof (induction es arbitrary: w b)
  case Nil
  then show ?case by simp
next
  case (Cons e es)
  then obtain w1 b1 where h1: "handle h e (w, b) = Inr (w1, b1)"
    and r: "run h es (w1, b1) = Inr (w', b')"
    by (auto split: sum.splits)
  from Cons.prems have "scroll_nonneg e" "list_all scroll_nonneg es" by simp_all
  with handle_start [OF h1] Cons.prems(3) Cons.IH [OF r] show ?case by simp
qed

lemma run_fibers:
  assumes "run h es (w, b) = Inr (w', b')"
    and "option_fibers b =
           (if isOpen (w_state w) then render_rows h (w_props w) (w_state w) else [])"
    and "(dropdownRef b = None) = (\<not> isOpen (w_state w))"
  shows "option_fibers b' =
           (if isOpen (w_state w') then render_rows h (w_props w') (w_state w') else []) \<and>
         (dropdownRef b' = None) = (\<not> isOpen (w_state w'))"
  using assms
proof (induction es arbitrary: w b)
  case Nil
  then show ?case by simp
next
  case (Cons e es)
  then obtain w1 b1 where h1: "handle h e (w, b) = Inr (w1, b1)"
    and r: "run h es (w1, b1) = Inr (w', b')"
    by (auto split: sum.splits)
  from handle_fibers [OF h1 Cons.prems(2,3)] show ?case
    by (intro Cons.IH [OF r]) simp_all
qed

lemma run_stale:
  assumes "run h es (w, b) = Inr (w', b')"
    and "list_all (keyed_event h) es" and "keys_distinct h (w_props w)"
    and "option_fibers b =
           (if isOpen (w_state w) then render_rows h (w_props w) (w_state w) else [])"
    and "(dropdownRef b = None) = (\<not> isOpen (w_state w))"
    and "stale_rows b = []"
  shows "stale_rows b' = [] \<and> keys_distinct h (w_props w')"
  using assms
proof (induction es arbitrary: w b)
  case Nil
  then show ?case by simp
next
  case (Cons e es)
  then obtain w1 b1 where h1: "handle h e (w, b) = Inr (w1, b1)"
    and r: "run h es (w1, b1) = Inr (w', b')"
    by (auto split: sum.splits)
  from Cons.prems have k: "keyed_event h e" "list_all (keyed_event h) es" by simp_all
  from handle_stale [OF h1 k(1) Cons.prems(3,4,6)] handle_fibers [OF h1 Cons.prems(4,5)] k(2)
  show ?case
    by (intro Cons.IH [OF r]) simp_all
qed

subsection \<open>Events and runs\<close>

lemma handle_scroll:
  assumes "isOpen (w_state w)" and "dropdownRef b \<noteq> None"
  shows "\<exists>w' b'. handle h (Scroll scrollTop) (w, b) = Inr (w', b') \<and> w_props w' = w_props w \<and>
           isOpen (w_state w') \<and>
           visibleStartIndex (w_state w') = \<lfloor>scrollTop / of_int itemHeight\<rfloor>"
proof (cases "handleScroll scrollTop (w_state w) = w_state w")
  case True
  then have "visibleStartIndex (w_state w) = \<lfloor>scrollTop / of_int itemHeight\<rfloor>"
    by (auto simp: handleScroll_def Let_def dest: arg_cong [where f = visibleStartIndex])
  with True assms show ?thesis
    by (simp add: handle_def set_state_def)
next
  case False
  let ?s = "handleScroll scrollTop (w_state w)" and ?b = "b\<lparr>dropdownRef := Some scrollTop\<rparr>"
  from False assms have hd: "handle h (Scroll scrollTop) (w, b) = rerender h (w_props w) ?s (w, ?b)"
    by (simp add: handle_def set_state_def)
  obtain w' b' where r: "rerender h (w_props w) ?s (w, ?b) = Inr (w', b')"
    using rerender_returns [of "w_props w" w h ?s ?b] by auto
  have s: "isOpen ?s = isOpen (w_state w)"
    "visibleStartIndex ?s = \<lfloor>scrollTop / of_int itemHeight\<rfloor>"
    by (simp_all add: handleScroll_def Let_def)
  from r have "w_props w' = w_props w \<and> isOpen (w_state w') \<and>
      visibleStartIndex (w_state w') = \<lfloor>scrollTop / of_int itemHeight\<rfloor>"
    by (rule rerender_Inr) (use s assms in simp)
  with r hd show ?thesis by simp
qed

lemma outside_mousedown:
  assumes "w_handler w \<in> set (mousedown_listeners b)" and "selectRef b"
  shows "\<exists>w' b'. handle h (MouseDown False) (w, b) = Inr (w', b') \<and> \<not> isOpen (w_state w') \<and>
           (\<not> isOpen (w_state w) \<longrightarrow> (w', b') = (w, b))"
proof (cases "isOpen (w_state w)")
  case True
  then have ne: "(w_state w)\<lparr>isOpen := False\<rparr> \<noteq> w_state w"
    by (auto dest: arg_cong [where f = isOpen])
  with assms have hd: "handle h (MouseDown False) (w, b) =
      rerender h (w_props w) ((w_state w)\<lparr>isOpen := False\<rparr>) (w, b)"
    by (simp add: handle_def handleClickOutside_def set_state_def)
  obtain w' b' where
    r: "rerender h (w_props w) ((w_state w)\<lparr>isOpen := False\<rparr>) (w, b) = Inr (w', b')"
    using rerender_returns [of "w_props w" w h "(w_state w)\<lparr>isOpen := False\<rparr>" b] by auto
  from r have "\<not> isOpen (w_state w')"
    by (rule rerender_Inr) simp
  with r hd True show ?thesis by simp
next
  case False
  then have "(w_state w)\<lparr>isOpen := False\<rparr> = w_state w"
    by simp
  with False assms show ?thesis
    by (simp add: handle_def handleClickOutside_def set_state_def)
qed

lemma mount_run:
  assumes "mount h handler p0 b0 = Inr c0" and "run h es c0 = Inr (w, b)"
  shows "option_fibers b =
           (if isOpen (w_state w) then render_rows h (w_props w) (w_state w) else [])"
    and "(dropdownRef b = None) = (\<not> isOpen (w_state w))"
    and "list_all scroll_nonneg es \<Longrightarrow> 0 \<le> visibleStartIndex (w_state w)"
    and "keys_distinct h p0 \<Longrightarrow> list_all (keyed_event h) es \<Longrightarrow>
           stale_rows b = [] \<and> keys_distinct h (w_props w)"
proof -
  obtain w0 b1 where c0: "c0 = (w0, b1)" by (cases c0)
  note m = mount_Inr [OF assms(1) [unfolded c0]]
  note r = assms(2) [unfolded c0]
  from m have i: "option_fibers b1 =
           (if isOpen (w_state w0) then render_rows h (w_props w0) (w_state w0) else [])"
    "(dropdownRef b1 = None) = (\<not> isOpen (w_state w0))"
    by simp_all
  from run_fibers [OF r i]
  show "option_fibers b =
           (if isOpen (w_state w) then render_rows h (w_props w) (w_state w) else [])"
    and "(dropdownRef b = None) = (\<not> isOpen (w_state w))"
    by simp_all
  show "0 \<le> visibleStartIndex (w_state w)" if "list_all scroll_nonneg es"
    using run_start [OF r that] m by simp
  show "stale_rows b = [] \<and> keys_distinct h (w_props w)"
    if "keys_distinct h p0" "list_all (keyed_event h) es"
    using run_stale [OF r that(2) _ i] m that(1) by simp
qed

subsection \<open>The measured maximum\<close>

lemma measure_labels_Max:
  "measure_labels h opts m =
     Max (insert m ((\<lambda>opt. offsetWidth h (opt_label opt) + 20) ` set opts))"
proof (induction opts arbitrary: m)
  case Nil
  then show ?case by simp
next
  case (Cons x xs)
  let ?f = "\<lambda>opt. offsetWidth h (opt_label opt) + 20"
  have "Max (insert (max m (?f x)) (?f ` set xs)) = Max (insert m (insert (?f x) (?f ` set xs)))"
  proof (cases "set xs = {}")
    case True
    then show ?thesis by (simp add: max.commute)
  next
    case False
    then show ?thesis by (simp add: max.assoc)
  qed
  with Cons.IH [of "max m (?f x)"] show ?case by simp
qed

lemma measure_labels_nonempty:
  assumes "opts \<noteq> []"
  shows "measure_labels h opts 0 = Max ((\<lambda>opt. offsetWidth h (opt_label opt) + 20) ` set opts)"
    and "0 < measure_labels h opts 0"
proof -
  let ?S = "(\<lambda>opt. offsetWidth h (opt_label opt) + 20) ` set opts"
  have ne: "?S \<noteq> {}" "finite ?S" using assms by simp_all
  then have "Max (insert 0 ?S) = Max ?S"
    by (simp add: max_def)
  then show 1: "measure_labels h opts 0 = Max ?S"
    by (simp add: measure_labels_Max)
  have "Max ?S \<in> ?S" using ne by (intro Max_in)
  then show "0 < measure_labels h opts 0" unfolding 1 by auto
qed

subsection \<open>Runs on the concrete inputs\<close>

lemma mount_seven:
  "mount plain_host 0 (seven_props v) fresh_browser = Inr (seven_widget v False, mounted_browser)"
  by (simp add: mount_def open_scroll_effect_def initial_state_def addEventListener_def
      measure_effect_def plain_host_def seven_props_def seven_options_def
      fresh_browser_def seven_widget_def mounted_browser_def Let_def)

lemma open_seven:
  "handle plain_host ClickControl (seven_widget JNull False, mounted_browser)
     = Inr (seven_widget JNull True, open_browser JNull)"
  by (simp add: handle_def set_state_def control_click_def rerender_def rendered_rows
      commit_rows_def open_scroll_effect_def attach_dropdown_def selectedIndex_def
      seven_props_def seven_options_def seven_widget_def mounted_browser_def
      open_browser_def Let_def)

lemma close_seven:
  "handle plain_host (MouseDown False) (seven_widget JNull True, open_browser JNull)
     = Inr (seven_widget JNull False, mounted_browser)"
  by (simp add: handle_def set_state_def handleClickOutside_def rerender_def rendered_rows
      commit_rows_def open_scroll_effect_def attach_dropdown_def
      seven_widget_def mounted_browser_def open_browser_def Let_def)

lemma theme_render:
  "handle plain_host (NewProps theme_props) (seven_widget JNull True, open_browser JNull)
     = Inr (\<lparr>w_props = theme_props,
             w_state = \<lparr>isOpen = True, maxDropdownWidth = 156, visibleStartIndex = 0\<rparr>,
             w_handler = 0\<rparr>,
            (open_browser JNull)
              \<lparr>next_node := 2, dropdownRef := Some 36,
               option_fibers := render_rows plain_host theme_props
                  \<lparr>isOpen = True, maxDropdownWidth = 156, visibleStartIndex = 0\<rparr>\<rparr>)"
  by code_simp

lemma theme_render_styleless:
  "handle styleless_host (NewProps theme_props) (seven_widget JNull False, mounted_browser)
     = Inl (TypeError, mounted_browser\<lparr>next_node := 2\<rparr>)"
  by code_simp

lemma forty_keys: "keys_distinct plain_host forty_props"
  by code_simp

lemma forty_mount:
  "mount plain_host 0 forty_props fresh_browser
     = Inr (widget_of forty_props (state_at False 0), mounted_browser)"
  by code_simp

lemma forty_open:
  "run plain_host [ClickControl] (widget_of forty_props (state_at False 0), mounted_browser)
     = Inr (widget_of forty_props (state_at True 0),
            mounted_browser
              \<lparr>dropdownRef := Some 0,
               option_fibers := render_rows plain_host forty_props (state_at True 0)\<rparr>)"
  by code_simp

lemma forty_scrolled:
  "run plain_host [ClickControl, Scroll 216]
       (widget_of forty_props (state_at False 0), mounted_browser)
     = Inr (widget_of forty_props (state_at True 6),
            mounted_browser
              \<lparr>dropdownRef := Some 216,
               option_fibers := render_rows plain_host forty_props (state_at True 6)\<rparr>)"
  by code_simp

lemma duplicate_mount:
  "mount plain_host 0 duplicate_props fresh_browser
     = Inr (\<lparr>w_props = duplicate_props,
             w_state = \<lparr>isOpen = False, maxDropdownWidth = 52, visibleStartIndex = 0\<rparr>,
             w_handler = 0\<rparr>, mounted_browser)"
  by code_simp

lemma duplicate_open:
  "run plain_host [ClickControl]
     (\<lparr>w_props = duplicate_props,
       w_state = \<lparr>isOpen = False, maxDropdownWidth = 52, visibleStartIndex = 0\<rparr>,
       w_handler = 0\<rparr>, mounted_browser)
     = Inr (\<lparr>w_props = duplicate_props,
             w_state = \<lparr>isOpen = True, maxDropdownWidth = 52, visibleStartIndex = 0\<rparr>,
             w_handler = 0\<rparr>,
            mounted_browser
              \<lparr>dropdownRef := Some 36,
               option_fibers :=
                 [\<lparr>row_key = ''b'', row_selected = False, row_top = 0, row_height = 36,
                   row_label = ''B'', row_click_value = JString ''b''\<rparr>,
                  \<lparr>row_key = ''1'', row_selected = True, row_top = 36, row_height = 36,
                   row_label = ''A'', row_click_value = JNumber (Finite 1)\<rparr>,
                  \<lparr>row_key = ''1'', row_selected = True, row_top = 72, row_height = 36,
                   row_label = ''C'', row_click_value = JNumber (Finite 1)\<rparr>]\<rparr>)"
  by code_simp

subsection \<open>Scrolling\<close>

text \<open>
  C1, as stated, fails on the code: an option row has the React key
  \<^verbatim>\<open>String(option.value)\<close>, and rows that share a key are not all replaced when the
  window moves. With forty options whose values are \<open>i mod 10\<close>, opening the dropdown and
  scrolling it to offset 216 sets the start index to 6 and renders the options 1 to 20,
  but the DOM then holds, besides their twenty rows, five rows of the first render, at
  the tops 0 to 144. The same happens with values that are pairwise distinct under
  \<^verbatim>\<open>===\<close>: with the numbers \<open>m\<close> and the strings of \<open>m\<close> as values, six rows of the first
  render stay.
\<close>

theorem scroll_window_counterexample:
  "mount plain_host 0 (cycle_props JNull) fresh_browser
     = Inr (widget_of (cycle_props JNull) (state_at False 0), mounted_browser) \<and>
   run plain_host [ClickControl, Scroll 216]
       (widget_of (cycle_props JNull) (state_at False 0), mounted_browser)
     = Inr (widget_of (cycle_props JNull) (state_at True 6),
            mounted_browser
              \<lparr>dropdownRef := Some 216,
               option_fibers := render_rows plain_host (cycle_props JNull) (state_at True 6),
               stale_rows :=
                 take 5 (render_rows plain_host (cycle_props JNull) (state_at True 0))\<rparr>) \<and>
   map row_top (render_rows plain_host (cycle_props JNull) (state_at True 6))
     = [36, 72, 108, 144, 180, 216, 252, 288, 324, 360, 396, 432, 468, 504, 540, 576, 612,
        648, 684, 720] \<and>
   map row_top (take 5 (render_rows plain_host (cycle_props JNull) (state_at True 0)))
     = [0, 36, 72, 108, 144] \<and>
   mount plain_host 0 mixed_props fresh_browser
     = Inr (widget_of mixed_props (state_at False 0), mounted_browser) \<and>
   (case run plain_host [ClickControl, Scroll 216]
           (widget_of mixed_props (state_at False 0), mounted_browser) of
      Inl e \<Rightarrow> False
    | Inr (w, b) \<Rightarrow>
        w_state w = state_at True 6 \<and>
        map row_top (option_fibers b)
          = [36, 72, 108, 144, 180, 216, 252, 288, 324, 360, 396, 432, 468, 504, 540, 576,
             612, 648, 684, 720] \<and>
        map row_top (stale_rows b) = [72, 144, 216, 288, 360, 432])"
  by code_simp

text \<open>
  C1, amended. Take a widget that was mounted with an option list whose keys
  \<^verbatim>\<open>String(value)\<close> are pairwise distinct and that has since received only option lists
  with pairwise distinct keys, and let it be open. A scroll event with an offset
  \<open>scrollTop \<ge> 0\<close> (the offsets up to the total height are among these) is handled
  without exception and sets the start index to \<open>\<lfloor>scrollTop / itemHeight\<rfloor>\<close>; the rows
  the dropdown then renders, and the option rows in the DOM after the commit, are exactly
  the rows of the options with indices from \<open>max 0 (start - bufferItems)\<close> up to, not
  including, \<open>min (start + visibleItems + bufferItems) (length options)\<close>, in this order,
  the option with index \<open>i\<close> at \<open>top = i * itemHeight\<close>; the option with index \<open>start\<close>
  is among them whenever \<open>start\<close> is below the number of options.
\<close>

theorem scroll_window:
  assumes "keys_distinct h p0" and "list_all (keyed_event h) es"
    and "mount h handler p0 b0 = Inr c0" and "run h es c0 = Inr (w, b)"
    and "isOpen (w_state w)" and "0 \<le> scrollTop"
  shows "let p = w_props w;
             start = \<lfloor>scrollTop / of_int itemHeight\<rfloor>;
             lo = nat (max 0 (start - bufferItems));
             hi = nat (min (start + visibleItems + bufferItems) (int (length (options p))));
             window = map (\<lambda>i. \<lparr>row_key = js_String h (opt_value (options p ! i)),
                                  row_selected = strict_eq (opt_value (options p ! i)) (cur_value p),
                                  row_top = int i * itemHeight,
                                  row_height = itemHeight,
                                  row_label = opt_label (options p ! i),
                                  row_click_value = opt_value (options p ! i)\<rparr>) [lo..<hi]
         in \<exists>w' b'. handle h (Scroll scrollTop) (w, b) = Inr (w', b') \<and>
              w_props w' = p \<and>
              visibleStartIndex (w_state w') = start \<and>
              map_option rows (dropdown (render h p (w_state w'))) = Some window \<and>
              dom_rows b' = window \<and>
              (start < int (length (options p)) \<longrightarrow> lo \<le> nat start \<and> nat start < hi)"
proof -
  let ?p = "w_props w"
  let ?start = "\<lfloor>scrollTop / of_int itemHeight\<rfloor>"
  note inv = mount_run [OF assms(3,4)]
  from inv(4) [OF assms(1,2)] have st: "stale_rows b = []" and kd: "keys_distinct h ?p"
    by simp_all
  from inv(2) assms(5) have dr: "dropdownRef b \<noteq> None" by simp
  from handle_scroll [OF assms(5) dr, of h scrollTop] obtain w' b' where
    hd: "handle h (Scroll scrollTop) (w, b) = Inr (w', b')"
    and w': "w_props w' = ?p" "isOpen (w_state w')" "visibleStartIndex (w_state w') = ?start"
    by blast
  from handle_fibers [OF hd inv(1,2)] w'
  have fib: "option_fibers b' = render_rows h ?p (w_state w')" by simp
  from handle_stale [OF hd _ kd inv(1) st] have st': "stale_rows b' = []" by simp
  have nonneg: "0 \<le> ?start"
    using assms(6) by (simp add: itemHeight_def)
  then have pre: "0 \<le> visibleStartIndex (w_state w') + visibleItems + bufferItems"
    by (simp add: w' visibleItems_def bufferItems_def)
  have e: "visibleOptionsEndIndex ?p (w_state w') =
             min (?start + visibleItems + bufferItems) (int (length (options ?p)))"
    by (simp add: visibleOptionsEndIndex_def w')
  have inside: "nat (max 0 (k - bufferItems)) \<le> nat k \<and>
                nat k < nat (min (k + visibleItems + bufferItems) n)"
    if "0 \<le> k" "k < n" for k n :: int
    using that unfolding visibleItems_def bufferItems_def by linarith
  have dd: "map_option rows (dropdown (render h ?p (w_state w'))) =
              Some (render_rows h ?p (w_state w'))"
    using w'(2) by (simp add: rendered_rows)
  have dom: "dom_rows b' = render_rows h ?p (w_state w')"
    by (simp add: dom_rows_def fib st')
  show ?thesis
    unfolding Let_def
    apply (rule exI [of _ w'], rule exI [of _ b'])
    unfolding dd dom
    using hd w'(1,3) render_rows_window [OF pre, of h ?p]
      inside [OF nonneg, of "int (length (options ?p))"]
    by (simp only: w'(3) e simp_thms) blast
qed

theorem scroll_window_witness:
  "keys_distinct plain_host forty_props \<and>
   list_all (keyed_event plain_host) [ClickControl] \<and>
   mount plain_host 0 forty_props fresh_browser
     = Inr (widget_of forty_props (state_at False 0), mounted_browser) \<and>
   run plain_host [ClickControl] (widget_of forty_props (state_at False 0), mounted_browser)
     = Inr (widget_of forty_props (state_at True 0),
            mounted_browser
              \<lparr>dropdownRef := Some 0,
               option_fibers := render_rows plain_host forty_props (state_at True 0)\<rparr>) \<and>
   isOpen (w_state (widget_of forty_props (state_at True 0))) \<and> (0::rat) \<le> 250 \<and>
   (\<exists>w' b'. handle plain_host (Scroll 250)
               (widget_of forty_props (state_at True 0),
                mounted_browser
                  \<lparr>dropdownRef := Some 0,
                   option_fibers := render_rows plain_host forty_props (state_at True 0)\<rparr>)
               = Inr (w', b') \<and>
      visibleStartIndex (w_state w') = 6 \<and>
      map row_top (dom_rows b')
        = [36, 72, 108, 144, 180, 216, 252, 288, 324, 360, 396, 432, 468, 504, 540, 576,
           612, 648, 684, 720] \<and>
      map row_label (dom_rows b') = map decimal [1..<21] \<and>
      row_label (dom_rows b' ! 5) = ''6'')"
proof -
  let ?w = "widget_of forty_props (state_at True 0)"
  let ?b = "mounted_browser
              \<lparr>dropdownRef := Some 0,
               option_fibers := render_rows plain_host forty_props (state_at True 0)\<rparr>"
  have fl: "\<lfloor>(250::rat) / of_int itemHeight\<rfloor> = 6"
    by (simp add: itemHeight_def floor_eq_iff)
  have lo: "nat (max 0 (6 - bufferItems)) = 1"
    and hi: "nat (min (6 + visibleItems + bufferItems) (int (length (options forty_props)))) = 21"
    by (simp_all add: bufferItems_def visibleItems_def forty_props_def)
  have h1: "list_all (keyed_event plain_host) [ClickControl]" by simp
  have h2: "isOpen (w_state ?w)" by (simp add: widget_of_def state_at_def)
  have h3: "(0::rat) \<le> 250" by simp
  have p: "w_props ?w = forty_props" by (simp add: widget_of_def)
  have tops: "map (\<lambda>i. int i * itemHeight) [1..<21]
        = [36, 72, 108, 144, 180, 216, 252, 288, 324, 360, 396, 432, 468, 504, 540, 576,
           612, 648, 684, 720]"
    and labels: "map (\<lambda>i. opt_label (options forty_props ! i)) [1..<21] = map decimal [1..<21]"
    and sixth: "map decimal [1..<21] ! 5 = ''6''"
    by code_simp+
  from scroll_window [OF forty_keys h1 forty_mount forty_open h2 h3]
  obtain w' b' where
    hd: "handle plain_host (Scroll 250) (?w, ?b) = Inr (w', b')"
    and vs: "visibleStartIndex (w_state w') = 6"
    and dom: "dom_rows b' =
      map (\<lambda>i. \<lparr>row_key = js_String plain_host (opt_value (options forty_props ! i)),
                 row_selected = strict_eq (opt_value (options forty_props ! i))
                                  (cur_value forty_props),
                 row_top = int i * itemHeight,
                 row_height = itemHeight,
                 row_label = opt_label (options forty_props ! i),
                 row_click_value = opt_value (options forty_props ! i)\<rparr>) [1..<21]"
    unfolding Let_def p fl lo hi by blast
  have t: "map row_top (dom_rows b') = map (\<lambda>i. int i * itemHeight) [1..<21]"
    and l: "map row_label (dom_rows b')
              = map (\<lambda>i. opt_label (options forty_props ! i)) [1..<21]"
    unfolding dom by (simp_all add: comp_def)
  have n: "5 < length (dom_rows b')"
    unfolding dom by simp
  have "row_label (dom_rows b' ! 5) = map row_label (dom_rows b') ! 5"
    using n by (rule nth_map [symmetric])
  then have s: "row_label (dom_rows b' ! 5) = ''6''"
    by (simp only: l labels sixth)
  have "handle plain_host (Scroll 250) (?w, ?b) = Inr (w', b') \<and>
      visibleStartIndex (w_state w') = 6 \<and>
      map row_top (dom_rows b')
        = [36, 72, 108, 144, 180, 216, 252, 288, 324, 360, 396, 432, 468, 504, 540, 576,
           612, 648, 684, 720] \<and>
      map row_label (dom_rows b') = map decimal [1..<21] \<and>
      row_label (dom_rows b' ! 5) = ''6''"
    using hd vs s by (simp only: t tops l labels simp_thms)
  then have "\<exists>w' b'. handle plain_host (Scroll 250) (?w, ?b) = Inr (w', b') \<and>
      visibleStartIndex (w_state w') = 6 \<and>
      map row_top (dom_rows b')
        = [36, 72, 108, 144, 180, 216, 252, 288, 324, 360, 396, 432, 468, 504, 540, 576,
           612, 648, 684, 720] \<and>
      map row_label (dom_rows b') = map decimal [1..<21] \<and>
      row_label (dom_rows b' ! 5) = ''6''"
    by - (rule exI [where x = w'], rule exI [where x = b'], assumption)
  with forty_keys h1 forty_mount forty_open h2 h3 show ?thesis
    by (intro conjI)
qed

subsection \<open>Opening\<close>

text \<open>
  C2. A click on the control of a closed widget whose current value is strictly equal to
  the value of \<open>options[k]\<close>, and of no option before it (values are unique in an option
  list), opens the dropdown; the commit of that render assigns \<open>k * itemHeight\<close> to the
  scroll offset of the dropdown and sets the start index to
  \<open>max 0 (k - \<lfloor>visibleItems / 2\<rfloor>)\<close>.
\<close>

theorem open_scrolls_to_selection:
  assumes "\<not> isOpen (w_state w)"
    and "k < length (options (w_props w))"
    and "strict_eq (opt_value (options (w_props w) ! k)) (cur_value (w_props w))"
    and "\<forall>opt\<in>set (take k (options (w_props w))).
           \<not> strict_eq (opt_value opt) (cur_value (w_props w))"
  shows "\<exists>w' b'. handle h ClickControl (w, b) = Inr (w', b') \<and>
           isOpen (w_state w') \<and>
           dropdownRef b' = Some (of_int (int k * itemHeight)) \<and>
           visibleStartIndex (w_state w') =
             max 0 (int k - \<lfloor>(of_int visibleItems :: rat) / 2\<rfloor>)"
proof -
  let ?p = "w_props w" and ?s = "control_click (w_state w)"
  define b1 where "b1 =
    attach_dropdown (isOpen ?s) (commit_rows (map_option rows (dropdown (render h ?p ?s))) b)"
  have si: "selectedIndex ?p = int k"
    using assms(2-4) by (rule selectedIndex_first)
  have ne: "?s \<noteq> w_state w"
    by (auto simp: control_click_def dest: arg_cong [where f = isOpen])
  have op: "isOpen ?s"
    using assms(1) by (simp add: control_click_def)
  have hd: "handle h ClickControl (w, b) = rerender h ?p ?s (w, b)"
    using ne by (simp add: handle_def set_state_def)
  obtain s1 b2 where
    e1: "(if isOpen ?s \<noteq> isOpen (w_state w) \<or> selectedIndex ?p \<noteq> selectedIndex (w_props w)
      then open_scroll_effect ?p (?s, b1) else (?s, b1)) = (s1, b2)"
    and r: "rerender h ?p ?s (w, b) =
          (case (if options_ref ?p \<noteq> options_ref (w_props w) then measure_effect h ?p (s1, b2)
                 else Inr (s1, b2)) of
             Inl e \<Rightarrow> Inl e
           | Inr (s2, b3) \<Rightarrow>
               Inr (w\<lparr>w_props := ?p, w_state := s2\<rparr>,
                    if s2 = ?s then b3
                    else commit_rows (map_option rows (dropdown (render h ?p s2))) b3))"
    unfolding b1_def by (rule rerender_unfold)
  have "dropdownRef b1 \<noteq> None"
    unfolding b1_def using op by simp
  then have "open_scroll_effect ?p (?s, b1) =
          (?s\<lparr>visibleStartIndex := max 0 (int k - \<lfloor>(of_int visibleItems :: rat) / 2\<rfloor>)\<rparr>,
           b1\<lparr>dropdownRef := Some (of_int (int k * itemHeight))\<rparr>)"
    using op by (simp add: open_scroll_effect_def Let_def si)
  with e1 op assms(1)
  have s1: "s1 = ?s\<lparr>visibleStartIndex :=
                    max 0 (int k - \<lfloor>(of_int visibleItems :: rat) / 2\<rfloor>)\<rparr>"
    and b2: "b2 = b1\<lparr>dropdownRef := Some (of_int (int k * itemHeight))\<rparr>"
    by auto
  show ?thesis
    unfolding hd r using op by (simp add: s1 b2)
qed

theorem open_scrolls_to_selection_witness:
  "\<not> isOpen (w_state (seven_widget (JString ''g'') False)) \<and>
   6 < length (options (w_props (seven_widget (JString ''g'') False))) \<and>
   strict_eq (opt_value (options (w_props (seven_widget (JString ''g'') False)) ! 6))
     (cur_value (w_props (seven_widget (JString ''g'') False))) \<and>
   list_all
     (\<lambda>opt. \<not> strict_eq (opt_value opt) (cur_value (w_props (seven_widget (JString ''g'') False))))
     (take 6 (options (w_props (seven_widget (JString ''g'') False)))) \<and>
   (\<exists>w' b'. handle plain_host ClickControl (seven_widget (JString ''g'') False, mounted_browser)
               = Inr (w', b') \<and>
      isOpen (w_state w') \<and> dropdownRef b' = Some 216 \<and> visibleStartIndex (w_state w') = 1)"
  using open_scrolls_to_selection
    [of "seven_widget (JString ''g'') False" 6 plain_host mounted_browser]
  by (simp add: seven_widget_def seven_props_def seven_options_def itemHeight_def
      visibleItems_def)

subsection \<open>Choosing an option\<close>

text \<open>
  C3. In an open widget, a click on the \<open>j\<close>-th rendered row, which is the row of the
  option with index \<open>i = max 0 (visibleStartIndex - bufferItems) + j\<close> of the option list,
  calls \<^verbatim>\<open>onChange\<close> exactly once, with the value of \<open>options[i]\<close>, and leaves the
  widget closed.
\<close>

theorem option_click_calls_onChange:
  assumes "isOpen (w_state w)"
    and "j < length (render_rows h (w_props w) (w_state w))"
  shows "let i = nat (max 0 (visibleStartIndex (w_state w) - bufferItems)) + j
         in i < length (options (w_props w)) \<and>
            row_top (render_rows h (w_props w) (w_state w) ! j) = int i * itemHeight \<and>
            (\<exists>w' b'. handle h (ClickOption j) (w, b) = Inr (w', b') \<and>
               onChange_calls b' = onChange_calls b @ [opt_value (options (w_props w) ! i)] \<and>
               \<not> isOpen (w_state w'))"
proof -
  let ?s = "w_state w" and ?p = "w_props w"
  let ?i = "nat (max 0 (visibleStartIndex ?s - bufferItems)) + j"
  let ?b = "b\<lparr>onChange_calls := onChange_calls b @ [opt_value (options ?p ! ?i)]\<rparr>"
  have row: "row_click_value (render_rows h ?p ?s ! j) = opt_value (options ?p ! ?i)"
    and top: "row_top (render_rows h ?p ?s ! j) = int ?i * itemHeight"
    using render_rows_nth [OF assms(2)] by (simp_all add: Let_def)
  have ne: "?s\<lparr>isOpen := False\<rparr> \<noteq> ?s"
    using assms(1) by (auto dest: arg_cong [where f = isOpen])
  have hd: "handle h (ClickOption j) (w, b) = rerender h ?p (?s\<lparr>isOpen := False\<rparr>) (w, ?b)"
    using assms ne by (simp add: handle_def option_click_def set_state_def row)
  obtain w' b' where r: "rerender h ?p (?s\<lparr>isOpen := False\<rparr>) (w, ?b) = Inr (w', b')"
    using rerender_returns [of ?p w h "?s\<lparr>isOpen := False\<rparr>" ?b] by auto
  from r have "onChange_calls b' = onChange_calls ?b \<and> \<not> isOpen (w_state w')"
    by (rule rerender_Inr) simp
  with r hd have "\<exists>w' b'. handle h (ClickOption j) (w, b) = Inr (w', b') \<and>
          onChange_calls b' = onChange_calls b @ [opt_value (options ?p ! ?i)] \<and>
          \<not> isOpen (w_state w')"
    by simp
  with top render_rows_index_bound [OF assms(2)] show ?thesis
    by (simp only: Let_def simp_thms)
qed

theorem option_click_calls_onChange_witness:
  "isOpen (w_state (seven_widget (JString ''c'') True)) \<and>
   4 < length (render_rows plain_host (w_props (seven_widget (JString ''c'') True))
                 (w_state (seven_widget (JString ''c'') True))) \<and>
   (\<exists>w' b'. handle plain_host (ClickOption 4)
               (seven_widget (JString ''c'') True, open_browser (JString ''c''))
               = Inr (w', b') \<and>
      onChange_calls b' = [JString ''e''] \<and> \<not> isOpen (w_state w'))"
proof -
  let ?w = "seven_widget (JString ''c'') True"
  have h1: "isOpen (w_state ?w)"
    by (simp add: seven_widget_def)
  have h2: "4 < length (render_rows plain_host (w_props ?w) (w_state ?w))"
    by (simp add: seven_widget_def seven_props_def seven_options_def render_rows_def
        visibleOptions_def visibleOptionsEndIndex_def js_slice_def visibleItems_def
        bufferItems_def)
  show ?thesis
    using option_click_calls_onChange [OF h1 h2, of "open_browser (JString ''c'')"] h1 h2
    by (simp add: Let_def seven_widget_def seven_props_def seven_options_def
        open_browser_def bufferItems_def)
qed

subsection \<open>The cached width\<close>

text \<open>
  C4, as stated, fails on the code: the width cached after measuring the seven one-letter
  labels is 52 where the maximum of the measured widths is 32, and replacing the option
  list by a new, empty array runs no measurement and keeps the cached 52. And where the
  host gives no computed style, a new, non-empty option list caches no width: the render
  ends in a \<^verbatim>\<open>TypeError\<close>.
\<close>

theorem cached_width_counterexample:
  "mount plain_host 0 (seven_props JNull) fresh_browser
     = Inr (seven_widget JNull False, mounted_browser) \<and>
   maxDropdownWidth (w_state (seven_widget JNull False)) = 52 \<and>
   spec_max_label_width plain_host (options (seven_props JNull)) = 32 \<and>
   options_ref empty_props \<noteq> options_ref (w_props (seven_widget JNull False)) \<and>
   handle plain_host (NewProps empty_props) (seven_widget JNull False, mounted_browser)
     = Inr ((seven_widget JNull False)\<lparr>w_props := empty_props\<rparr>, mounted_browser) \<and>
   spec_max_label_width plain_host (options empty_props) = 0 \<and>
   options_ref theme_props \<noteq> options_ref (w_props (seven_widget JNull False)) \<and>
   handle styleless_host (NewProps theme_props) (seven_widget JNull False, mounted_browser)
     = Inl (TypeError, mounted_browser\<lparr>next_node := 2\<rparr>)"
  by (simp add: mount_def handle_def rerender_def rendered_rows commit_rows_def
      open_scroll_effect_def addEventListener_def measure_effect_def attach_dropdown_def
      selectedIndex_def spec_max_label_width_def plain_host_def styleless_host_def
      seven_props_def seven_options_def empty_props_def theme_props_def fresh_browser_def
      seven_widget_def mounted_browser_def initial_state_def Let_def)

text \<open>
  C4, amended. A render with an option list of a new identity that is not empty runs one
  measurement (one probe element is created): where the host gives a computed style, the
  event is handled without exception and the width cached afterwards is the maximum,
  over the labels, of the measured width plus 20, which is positive; where the host gives
  none, the event ends in a \<^verbatim>\<open>TypeError\<close>. Every other event, and a render with a
  new list that is empty, is handled without exception, runs no measurement and keeps
  the cached width. In every render the control has the cached width while the widget is
  open and the width is positive, and an automatic width otherwise; the dropdown has the
  cached width when it is positive.
\<close>

theorem cached_width_recomputed:
  "(if \<exists>p. e = NewProps p \<and> options_ref p \<noteq> options_ref (w_props w) \<and> options p \<noteq> []
    then if getComputedStyle h = None
         then \<exists>b'. handle h e (w, b) = Inl (TypeError, b')
         else \<exists>w' b'. handle h e (w, b) = Inr (w', b') \<and>
                maxDropdownWidth (w_state w') =
                  Max ((\<lambda>opt. offsetWidth h (opt_label opt) + 20) ` set (options (w_props w'))) \<and>
                0 < maxDropdownWidth (w_state w') \<and>
                next_node b' = Suc (next_node b)
    else \<exists>w' b'. handle h e (w, b) = Inr (w', b') \<and>
           maxDropdownWidth (w_state w') = maxDropdownWidth (w_state w) \<and>
           next_node b' = next_node b) \<and>
   control_width (render h p' s') =
     (if isOpen s' \<and> 0 < maxDropdownWidth s' then Px (maxDropdownWidth s') else Auto) \<and>
   (isOpen s' \<longrightarrow>
      map_option dropdown_width (dropdown (render h p' s')) =
        Some (if 0 < maxDropdownWidth s' then Px (maxDropdownWidth s') else Auto))"
proof -
  have styles: "control_width (render h p' s') =
             (if isOpen s' \<and> 0 < maxDropdownWidth s' then Px (maxDropdownWidth s') else Auto) \<and>
           (isOpen s' \<longrightarrow>
              map_option dropdown_width (dropdown (render h p' s')) =
                Some (if 0 < maxDropdownWidth s' then Px (maxDropdownWidth s') else Auto))"
    by (simp add: render_def)
  have main: "if \<exists>p. e = NewProps p \<and> options_ref p \<noteq> options_ref (w_props w) \<and> options p \<noteq> []
    then if getComputedStyle h = None
         then \<exists>b'. handle h e (w, b) = Inl (TypeError, b')
         else \<exists>w' b'. handle h e (w, b) = Inr (w', b') \<and>
                maxDropdownWidth (w_state w') =
                  Max ((\<lambda>opt. offsetWidth h (opt_label opt) + 20) ` set (options (w_props w'))) \<and>
                0 < maxDropdownWidth (w_state w') \<and>
                next_node b' = Suc (next_node b)
    else \<exists>w' b'. handle h e (w, b) = Inr (w', b') \<and>
           maxDropdownWidth (w_state w') = maxDropdownWidth (w_state w) \<and>
           next_node b' = next_node b"
  proof (cases "\<exists>p. e = NewProps p \<and> options_ref p \<noteq> options_ref (w_props w) \<and> options p \<noteq> []")
    case True
    then obtain p where e: "e = NewProps p"
      and ref: "options_ref p \<noteq> options_ref (w_props w)" and ne: "options p \<noteq> []"
      by blast
    have hd: "handle h e (w, b) = rerender h p (w_state w) (w, b)"
      unfolding e by (simp add: handle_def)
    show ?thesis
    proof (cases "getComputedStyle h = None")
      case None: True
      from rerender_throws [OF ref ne None, of "w_state w" b] True None hd show ?thesis
        by simp
    next
      case Some: False
      then obtain w' b' where r: "rerender h p (w_state w) (w, b) = Inr (w', b')"
        using rerender_returns [of p w h "w_state w" b] by auto
      from r have "maxDropdownWidth (w_state w') = measure_labels h (options p) 0 \<and>
          w_props w' = p \<and> next_node b' = Suc (next_node b)"
        by (rule rerender_Inr) (use ref ne in simp)
      with measure_labels_nonempty [OF ne, of h] r hd True Some show ?thesis
        by auto
    qed
  next
    case False
    obtain p s b0 where
      c: "handle h e (w, b) = Inr (w, b0) \<or> handle h e (w, b) = rerender h p s (w, b0)"
      and p: "e = NewProps p \<or> p = w_props w \<and> (\<forall>q. e \<noteq> NewProps q)"
      and f: "maxDropdownWidth s = maxDropdownWidth (w_state w)" "next_node b0 = next_node b"
      by (rule handle_cases)
    from p False have same: "options_ref p = options_ref (w_props w) \<or> options p = []"
      by auto
    from c have "\<exists>w' b'. handle h e (w, b) = Inr (w', b') \<and>
           maxDropdownWidth (w_state w') = maxDropdownWidth (w_state w) \<and>
           next_node b' = next_node b"
    proof
      assume "handle h e (w, b) = Inr (w, b0)"
      with f show ?thesis by simp
    next
      assume hd: "handle h e (w, b) = rerender h p s (w, b0)"
      from same obtain w' b' where r: "rerender h p s (w, b0) = Inr (w', b')"
        using rerender_returns [of p w h s b0] by auto
      from r have "maxDropdownWidth (w_state w') = maxDropdownWidth s \<and>
          next_node b' = next_node b0"
        by (rule rerender_Inr) (use same in auto)
      with r hd f show ?thesis by simp
    qed
    then show ?thesis
      by (simp only: if_not_P [OF False])
  qed
  from main styles show ?thesis
    by (rule conjI)
qed

theorem cached_width_recomputed_witness:
  "getComputedStyle plain_host \<noteq> None \<and> getComputedStyle styleless_host = None \<and>
   options_ref theme_props \<noteq> options_ref (w_props (seven_widget JNull True)) \<and>
   options theme_props \<noteq> [] \<and>
   handle plain_host (NewProps theme_props) (seven_widget JNull True, open_browser JNull)
     = Inr (\<lparr>w_props = theme_props,
             w_state = \<lparr>isOpen = True, maxDropdownWidth = 156, visibleStartIndex = 0\<rparr>,
             w_handler = 0\<rparr>,
            (open_browser JNull)
              \<lparr>next_node := 2, dropdownRef := Some 36,
               option_fibers := render_rows plain_host theme_props
                  \<lparr>isOpen = True, maxDropdownWidth = 156, visibleStartIndex = 0\<rparr>\<rparr>) \<and>
   handle styleless_host (NewProps theme_props) (seven_widget JNull False, mounted_browser)
     = Inl (TypeError, mounted_browser\<lparr>next_node := 2\<rparr>) \<and>
   (\<exists>w' b'. handle plain_host (NewProps theme_props)
               (seven_widget JNull True, open_browser JNull) = Inr (w', b') \<and>
      0 < maxDropdownWidth (w_state w') \<and>
      next_node b' = Suc (next_node (open_browser JNull))) \<and>
   (\<exists>b'. handle styleless_host (NewProps theme_props)
            (seven_widget JNull False, mounted_browser) = Inl (TypeError, b')) \<and>
   control_width (render plain_host theme_props
       \<lparr>isOpen = True, maxDropdownWidth = 156, visibleStartIndex = 0\<rparr>) = Px 156 \<and>
   control_width (render plain_host theme_props
       \<lparr>isOpen = False, maxDropdownWidth = 156, visibleStartIndex = 0\<rparr>) = Auto \<and>
   map_option dropdown_width (dropdown (render plain_host theme_props
       \<lparr>isOpen = True, maxDropdownWidth = 156, visibleStartIndex = 0\<rparr>)) = Some (Px 156)"
proof -
  let ?open = "\<lparr>isOpen = True, maxDropdownWidth = 156, visibleStartIndex = 0\<rparr>"
  let ?closed = "\<lparr>isOpen = False, maxDropdownWidth = 156, visibleStartIndex = 0\<rparr>"
  have h: "getComputedStyle plain_host \<noteq> None" "getComputedStyle styleless_host = None"
    "options_ref theme_props \<noteq> options_ref (w_props (seven_widget JNull True))"
    "options theme_props \<noteq> []"
    by (simp_all add: plain_host_def styleless_host_def theme_props_def seven_widget_def
        seven_props_def)
  note t1 = cached_width_recomputed [of "NewProps theme_props" "seven_widget JNull True"
      plain_host "open_browser JNull" theme_props ?open]
  note t2 = cached_width_recomputed [of "NewProps theme_props" "seven_widget JNull False"
      styleless_host mounted_browser theme_props ?closed]
  from t1 have s1: "control_width (render plain_host theme_props ?open) = Px 156"
    and s2: "map_option dropdown_width (dropdown (render plain_host theme_props ?open))
               = Some (Px 156)"
    by simp_all
  from t2 have "control_width (render styleless_host theme_props ?closed) = Auto"
    by simp
  then have s3: "control_width (render plain_host theme_props ?closed) = Auto"
    by (simp add: render_def)
  have c1: "\<exists>p. NewProps theme_props = NewProps p \<and>
              options_ref p \<noteq> options_ref (w_props (seven_widget JNull True)) \<and> options p \<noteq> []"
    and c2: "\<exists>p. NewProps theme_props = NewProps p \<and>
              options_ref p \<noteq> options_ref (w_props (seven_widget JNull False)) \<and> options p \<noteq> []"
    using h by (simp_all add: seven_widget_def)
  from t1 [THEN conjunct1]
  have "\<exists>w' b'. handle plain_host (NewProps theme_props)
                   (seven_widget JNull True, open_browser JNull) = Inr (w', b') \<and>
          maxDropdownWidth (w_state w') =
            Max ((\<lambda>opt. offsetWidth plain_host (opt_label opt) + 20) ` set (options (w_props w'))) \<and>
          0 < maxDropdownWidth (w_state w') \<and>
          next_node b' = Suc (next_node (open_browser JNull))"
    by (simp only: if_P [OF c1] if_not_P [OF h(1)])
  then have r1: "\<exists>w' b'. handle plain_host (NewProps theme_props)
                   (seven_widget JNull True, open_browser JNull) = Inr (w', b') \<and>
          0 < maxDropdownWidth (w_state w') \<and>
          next_node b' = Suc (next_node (open_browser JNull))"
    by blast
  from t2 [THEN conjunct1]
  have r2: "\<exists>b'. handle styleless_host (NewProps theme_props)
                   (seven_widget JNull False, mounted_browser) = Inl (TypeError, b')"
    by (simp only: if_P [OF c2] if_P [OF h(2)])
  from h theme_render theme_render_styleless r1 r2 s1 s2 s3 show ?thesis
    by (intro conjI)
qed

subsection \<open>Bounded rendering\<close>

text \<open>
  C5, as stated, fails on the code, in two ways. Rows that share a key accumulate: with
  forty options whose values are \<open>i mod 10\<close>, the DOM holds 25 option rows after opening
  and scrolling to offset 216, and 35 after scrolling on to 432, where
  \<open>visibleItems + 2 * bufferItems\<close> is 20. And the end of the window is not clamped from
  below: with the forty options of values 0 to 39, whose keys are distinct, a scroll
  event with offset \<open>-720\<close> sets the start index to \<open>-20\<close>, the slice ends at index
  \<open>-5\<close>, counted from the end of the list, and 35 rows are rendered.
\<close>

theorem rendered_rows_counterexample:
  "(case run plain_host [ClickControl, Scroll 216]
           (widget_of (cycle_props JNull) (state_at False 0), mounted_browser) of
      Inl e \<Rightarrow> False
    | Inr (w, b) \<Rightarrow>
        w_state w = state_at True 6 \<and> length (option_fibers b) = 20 \<and>
        length (stale_rows b) = 5 \<and> length (dom_rows b) = 25) \<and>
   (case run plain_host [ClickControl, Scroll 216, Scroll 432]
           (widget_of (cycle_props JNull) (state_at False 0), mounted_browser) of
      Inl e \<Rightarrow> False
    | Inr (w, b) \<Rightarrow>
        w_state w = state_at True 12 \<and> length (option_fibers b) = 20 \<and>
        length (dom_rows b) = 35) \<and>
   keys_distinct plain_host forty_props \<and>
   (case run plain_host [ClickControl, Scroll (- 720)]
           (widget_of forty_props (state_at False 0), mounted_browser) of
      Inl e \<Rightarrow> False
    | Inr (w, b) \<Rightarrow>
        w_state w = state_at True (- 20) \<and> stale_rows b = [] \<and>
        map row_top (dom_rows b) = map (\<lambda>i. int i * 36) [0..<35]) \<and>
   visibleItems + 2 * bufferItems = 20"
  by code_simp

text \<open>
  C5, amended. The total height is the number of options times \<open>itemHeight\<close> (36000 for
  1000 options). In every configuration that a widget mounted with an option list of
  pairwise distinct keys \<^verbatim>\<open>String(value)\<close> reaches by events of which none brings an
  option list with a repeated key and none is a scroll to a negative offset, the render
  returns at most \<open>visibleItems + 2 * bufferItems\<close> option rows, whatever the length of
  the list, and the option rows in the DOM are these rows while the widget is open, and
  none while it is closed.
\<close>

theorem rendered_rows_bounded:
  assumes "keys_distinct h p0" and "list_all (keyed_event h) es"
    and "list_all scroll_nonneg es"
    and "mount h handler p0 b0 = Inr c0" and "run h es c0 = Inr (w, b)"
  shows "totalHeight p = int (length (options p)) * itemHeight \<and>
         (length (options p) = 1000 \<longrightarrow> totalHeight p = 36000) \<and>
         int (length (render_rows h (w_props w) (w_state w))) \<le> visibleItems + 2 * bufferItems \<and>
         dom_rows b = (if isOpen (w_state w) then render_rows h (w_props w) (w_state w) else []) \<and>
         int (length (dom_rows b)) \<le> visibleItems + 2 * bufferItems"
proof -
  note inv = mount_run [OF assms(4,5)]
  from inv(4) [OF assms(1,2)] have st: "stale_rows b = []"
    by simp
  have "0 \<le> visibleStartIndex (w_state w)"
    using inv(3) [OF assms(3)] .
  then have len: "int (length (render_rows h (w_props w) (w_state w)))
                    \<le> visibleItems + 2 * bufferItems"
    using visibleOptions_length [of "w_state w" "w_props w"] by (simp add: render_rows_def)
  have dom: "dom_rows b
               = (if isOpen (w_state w) then render_rows h (w_props w) (w_state w) else [])"
    by (simp add: dom_rows_def st inv(1))
  have "int (length (dom_rows b)) \<le> visibleItems + 2 * bufferItems"
    using len by (simp add: dom visibleItems_def bufferItems_def)
  with len dom show ?thesis
    by (simp add: totalHeight_def itemHeight_def)
qed

theorem rendered_rows_bounded_witness:
  "keys_distinct plain_host forty_props \<and>
   list_all (keyed_event plain_host) [ClickControl, Scroll 216] \<and>
   list_all scroll_nonneg [ClickControl, Scroll 216] \<and>
   mount plain_host 0 forty_props fresh_browser
     = Inr (widget_of forty_props (state_at False 0), mounted_browser) \<and>
   run plain_host [ClickControl, Scroll 216]
       (widget_of forty_props (state_at False 0), mounted_browser)
     = Inr (widget_of forty_props (state_at True 6),
            mounted_browser
              \<lparr>dropdownRef := Some 216,
               option_fibers := render_rows plain_host forty_props (state_at True 6)\<rparr>) \<and>
   length (options thousand_props) = 1000 \<and> totalHeight thousand_props = 36000 \<and>
   totalHeight forty_props = 1440 \<and>
   length (dom_rows (mounted_browser
              \<lparr>dropdownRef := Some 216,
               option_fibers := render_rows plain_host forty_props (state_at True 6)\<rparr>)) = 20 \<and>
   int (length (dom_rows (mounted_browser
              \<lparr>dropdownRef := Some 216,
               option_fibers := render_rows plain_host forty_props (state_at True 6)\<rparr>)))
     \<le> visibleItems + 2 * bufferItems"
proof -
  have h2: "list_all (keyed_event plain_host) [ClickControl, Scroll 216]"
    and h3: "list_all scroll_nonneg [ClickControl, Scroll 216]"
    by simp_all
  have n: "length (options thousand_props) = 1000"
    by (simp add: thousand_props_def)
  have f: "totalHeight forty_props = 1440"
    by (simp add: totalHeight_def forty_props_def itemHeight_def)
  have l: "length (dom_rows (mounted_browser
              \<lparr>dropdownRef := Some 216,
               option_fibers := render_rows plain_host forty_props (state_at True 6)\<rparr>)) = 20"
    by code_simp
  note t = rendered_rows_bounded [OF forty_keys h2 h3 forty_mount forty_scrolled]
  from t [of thousand_props] n have "totalHeight thousand_props = 36000"
    by simp
  moreover have "int (length (dom_rows (mounted_browser
              \<lparr>dropdownRef := Some 216,
               option_fibers := render_rows plain_host forty_props (state_at True 6)\<rparr>)))
     \<le> visibleItems + 2 * bufferItems"
    by (rule t [of forty_props, THEN conjunct2, THEN conjunct2, THEN conjunct2, THEN conjunct2])
  ultimately show ?thesis
    using forty_keys h2 h3 forty_mount forty_scrolled n f l by (intro conjI) 
qed

subsection \<open>Mousedown outside the widget\<close>

text \<open>
  C6. From the mount of the widget on, through every sequence of events, the document has
  exactly the mousedown listeners it had before plus the widget's handler, and unmounting
  leaves exactly the listeners from before the mount. In every such configuration a
  mousedown whose target is outside the widget's subtree leaves the widget closed, and
  changes nothing at all when the widget was closed already.
\<close>

theorem outside_click_listener:
  assumes "handler \<notin> set (mousedown_listeners b0)"
    and "mount h handler p b0 = Inr c0"
    and "run h es c0 = Inr (w, b)"
  shows "mousedown_listeners b = mousedown_listeners b0 @ [handler] \<and>
         mousedown_listeners (unmount (w, b)) = mousedown_listeners b0 \<and>
         (\<exists>w' b'. handle h (MouseDown False) (w, b) = Inr (w', b') \<and>
            \<not> isOpen (w_state w') \<and>
            (\<not> isOpen (w_state w) \<longrightarrow> (w', b') = (w, b)))"
proof -
  obtain w0 b1 where c0: "c0 = (w0, b1)" by (cases c0)
  from mount_Inr [OF assms(2) [unfolded c0]] assms(1)
  have m: "mousedown_listeners b1 = mousedown_listeners b0 @ [handler]" "selectRef b1"
    "w_handler w0 = handler"
    by simp_all
  from run_frame [OF assms(3) [unfolded c0]] m
  have r: "mousedown_listeners b = mousedown_listeners b0 @ [handler]" "selectRef b"
    "w_handler w = handler"
    by simp_all
  have "mousedown_listeners (unmount (w, b)) = mousedown_listeners b0"
    using r assms(1) by (simp add: unmount_def removeEventListener_def remove1_append)
  moreover have "w_handler w \<in> set (mousedown_listeners b)"
    using r by simp
  ultimately show ?thesis
    using r(1) outside_mousedown [OF _ r(2), of w h] by simp
qed

theorem outside_click_listener_witness:
  "0 \<notin> set (mousedown_listeners fresh_browser) \<and>
   mount plain_host 0 (seven_props JNull) fresh_browser
     = Inr (seven_widget JNull False, mounted_browser) \<and>
   run plain_host [ClickControl] (seven_widget JNull False, mounted_browser)
     = Inr (seven_widget JNull True, open_browser JNull) \<and>
   mousedown_listeners (open_browser JNull) = [0] \<and>
   mousedown_listeners (unmount (seven_widget JNull True, open_browser JNull)) = [] \<and>
   handle plain_host (MouseDown False) (seven_widget JNull True, open_browser JNull)
     = Inr (seven_widget JNull False, mounted_browser) \<and>
   handle plain_host (MouseDown False) (seven_widget JNull False, mounted_browser)
     = Inr (seven_widget JNull False, mounted_browser)"
proof -
  have h1: "0 \<notin> set (mousedown_listeners fresh_browser)"
    by (simp add: fresh_browser_def)
  have h2: "mount plain_host 0 (seven_props JNull) fresh_browser
          = Inr (seven_widget JNull False, mounted_browser)"
    by (rule mount_seven)
  have h3: "run plain_host [ClickControl] (seven_widget JNull False, mounted_browser)
     = Inr (seven_widget JNull True, open_browser JNull)"
    by (simp add: open_seven)
  have h4: "handle plain_host (MouseDown False) (seven_widget JNull False, mounted_browser)
     = Inr (seven_widget JNull False, mounted_browser)"
    by (simp add: handle_def set_state_def handleClickOutside_def seven_widget_def
        mounted_browser_def)
  from outside_click_listener [OF h1 h2 h3] h1 h2 h3 h4 close_seven show ?thesis
    by (simp add: fresh_browser_def)
qed

subsection \<open>Measurement without a computed style\<close>

text \<open>
  C7, as stated, fails on the code: with a host that gives no computed style, the
  measurement, and with it the mount of the widget, ends in a \<^verbatim>\<open>TypeError\<close>.
\<close>

theorem measurement_error_counterexample:
  "measure_effect styleless_host (seven_props JNull) (initial_state, fresh_browser)
     = Inl (TypeError, fresh_browser\<lparr>next_node := 1\<rparr>) \<and>
   mount styleless_host 0 (seven_props JNull) fresh_browser
     = Inl (TypeError,
            fresh_browser\<lparr>next_node := 1, mousedown_listeners := [0], selectRef := True\<rparr>)"
  by (simp add: measure_effect_def mount_def open_scroll_effect_def addEventListener_def
      styleless_host_def plain_host_def seven_props_def seven_options_def initial_state_def
      fresh_browser_def Let_def)

text \<open>
  C7, amended. For a non-empty option list and a host without computed style the
  measurement throws, after creating the probe element and before appending it; with a
  computed style it returns, having set the cached width, and the children of the body
  are those from before the pass: the appended probe is removed. For an empty option
  list nothing happens.
\<close>

theorem measure_effect_outcome:
  assumes "next_node b \<notin> set (body_children b)"
  shows "(options p \<noteq> [] \<and> getComputedStyle h = None \<longrightarrow>
            measure_effect h p (s, b) = Inl (TypeError, b\<lparr>next_node := Suc (next_node b)\<rparr>)) \<and>
         (options p \<noteq> [] \<and> getComputedStyle h \<noteq> None \<longrightarrow>
            measure_effect h p (s, b) =
              Inr (s\<lparr>maxDropdownWidth := measure_labels h (options p) 0\<rparr>,
                   b\<lparr>next_node := Suc (next_node b)\<rparr>)) \<and>
         (options p = [] \<longrightarrow> measure_effect h p (s, b) = Inr (s, b))"
proof -
  have "b\<lparr>next_node := Suc (next_node b),
          body_children := remove1 (next_node b) (body_children b @ [next_node b])\<rparr>
        = b\<lparr>next_node := Suc (next_node b)\<rparr>"
    using assms by (simp add: remove1_append)
  then show ?thesis
    by (auto simp: measure_effect_def Let_def)
qed

theorem measure_effect_outcome_witness:
  "next_node fresh_browser \<notin> set (body_children fresh_browser) \<and>
   options (seven_props JNull) \<noteq> [] \<and>
   getComputedStyle styleless_host = None \<and> getComputedStyle plain_host \<noteq> None \<and>
   measure_effect styleless_host (seven_props JNull) (initial_state, fresh_browser)
     = Inl (TypeError, fresh_browser\<lparr>next_node := 1\<rparr>) \<and>
   measure_effect plain_host (seven_props JNull) (initial_state, fresh_browser)
     = Inr (initial_state\<lparr>maxDropdownWidth := 52\<rparr>, fresh_browser\<lparr>next_node := 1\<rparr>) \<and>
   body_children (fresh_browser\<lparr>next_node := 1\<rparr>) = body_children fresh_browser"
  using measure_effect_outcome [of fresh_browser "seven_props JNull" styleless_host initial_state]
    measure_effect_outcome [of fresh_browser "seven_props JNull" plain_host initial_state]
  by (simp add: fresh_browser_def seven_props_def seven_options_def styleless_host_def
      plain_host_def)

subsection \<open>The text of the control\<close>

text \<open>
  C8. The control shows the label of the option whose value is strictly equal to the
  current value (the first one, which is the only one when values are unique; whenever
  some option matches, the label shown is that of a matching option). When no option
  matches it shows the text of the \<^verbatim>\<open>placeholder\<close> prop, and \<^verbatim>\<open>Select an option\<close>
  when that prop is not given; rendering has no error result. With the single option
  \<open>{value: 1, label: "A"}\<close> and the placeholder \<open>Theme\<close>, the value 1 shows \<open>A\<close> and
  the value 99 shows \<open>Theme\<close>.
\<close>

theorem closed_control_text:
  "(k < length (options p) \<and> strict_eq (opt_value (options p ! k)) (cur_value p) \<and>
    (\<forall>opt\<in>set (take k (options p)). \<not> strict_eq (opt_value opt) (cur_value p))
      \<longrightarrow> control_text (render h p s) = opt_label (options p ! k)) \<and>
   ((\<exists>opt\<in>set (options p). strict_eq (opt_value opt) (cur_value p))
      \<longrightarrow> (\<exists>opt\<in>set (options p). strict_eq (opt_value opt) (cur_value p) \<and>
             control_text (render h p s) = opt_label opt)) \<and>
   ((\<forall>opt\<in>set (options p). \<not> strict_eq (opt_value opt) (cur_value p))
      \<longrightarrow> control_text (render h p s) =
            (case placeholder p of None \<Rightarrow> ''Select an option'' | Some text \<Rightarrow> text))"
proof (intro conjI impI)
  assume "k < length (options p) \<and> strict_eq (opt_value (options p ! k)) (cur_value p) \<and>
    (\<forall>opt\<in>set (take k (options p)). \<not> strict_eq (opt_value opt) (cur_value p))"
  then have "selectedOption p = Some (options p ! k)"
    by (intro selectedOption_first) simp_all
  then show "control_text (render h p s) = opt_label (options p ! k)"
    by (simp add: render_def)
next
  assume "\<exists>opt\<in>set (options p). strict_eq (opt_value opt) (cur_value p)"
  then have "selectedOption p \<noteq> None"
    using selectedOption_none by (auto simp: selectedOption_def find_None_iff)
  then obtain opt where s: "selectedOption p = Some opt" by blast
  with selectedOption_some [OF s]
  show "\<exists>opt\<in>set (options p). strict_eq (opt_value opt) (cur_value p) \<and>
             control_text (render h p s) = opt_label opt"
    by (auto simp: render_def)
next
  assume "\<forall>opt\<in>set (options p). \<not> strict_eq (opt_value opt) (cur_value p)"
  then have "selectedOption p = None" by (rule selectedOption_none)
  then show "control_text (render h p s) =
            (case placeholder p of None \<Rightarrow> ''Select an option'' | Some text \<Rightarrow> text)"
    by (simp add: render_def placeholder_text_def default_placeholder_def split: option.split)
qed

theorem closed_control_text_witness:
  "control_text (render plain_host (one_option_props (JNumber (Finite 1)) (Some ''Theme''))
     initial_state) = ''A'' \<and>
   control_text (render plain_host (one_option_props (JNumber (Finite 99)) (Some ''Theme''))
     initial_state) = ''Theme'' \<and>
   control_text (render plain_host (one_option_props (JNumber (Finite 99)) None)
     initial_state) = ''Select an option''"
  using closed_control_text
      [of 0 "one_option_props (JNumber (Finite 1)) (Some ''Theme'')" plain_host initial_state]
    closed_control_text
      [of 0 "one_option_props (JNumber (Finite 99)) (Some ''Theme'')" plain_host initial_state]
    closed_control_text
      [of 0 "one_option_props (JNumber (Finite 99)) None" plain_host initial_state]
  by (simp add: one_option_props_def)

subsection \<open>The empty option list\<close>



subsection \<open>Several options with the current value\<close>

text \<open>
  C10, as stated, fails on the code: options with the same value have the same key, and
  a row that React has lost track of keeps the mark of its last render. With forty
  options whose values are \<open>i mod 10\<close> and the current value 3, after opening, scrolling
  to offset 216 and a render with the current value 4, the DOM holds the row of option
  3, whose value is not the current value, still marked as selected, and a row of option
  4, whose value is the current value, not marked.
\<close>

theorem duplicate_values_counterexample:
  "length (filter (\<lambda>opt. strict_eq (opt_value opt) (JNumber (Finite 3)))
      (options (cycle_props (JNumber (Finite 3))))) = 4 \<and>
   length (filter (\<lambda>opt. strict_eq (opt_value opt) (JNumber (Finite 4)))
      (options (cycle_props (JNumber (Finite 4))))) = 4 \<and>
   mount plain_host 0 (cycle_props (JNumber (Finite 3))) fresh_browser
     = Inr (widget_of (cycle_props (JNumber (Finite 3))) (state_at False 0), mounted_browser) \<and>
   (case run plain_host [ClickControl, Scroll 216, NewProps (cycle_props (JNumber (Finite 4)))]
           (widget_of (cycle_props (JNumber (Finite 3))) (state_at False 0), mounted_browser) of
      Inl e \<Rightarrow> False
    | Inr (w, b) \<Rightarrow>
        w_props w = cycle_props (JNumber (Finite 4)) \<and> w_state w = state_at True 0 \<and>
        map (\<lambda>r. (row_top r, row_label r, row_click_value r, row_selected r))
            (take 5 (stale_rows b))
          = [(0, ''0'', JNumber (Finite 0), False),
             (36, ''1'', JNumber (Finite 1), False),
             (72, ''2'', JNumber (Finite 2), False),
             (108, ''3'', JNumber (Finite 3), True),
             (144, ''4'', JNumber (Finite 4), False)] \<and>
        map row_selected (option_fibers b)
          = [False, False, False, False, True, False, False, False, False, False,
             False, False, False, False, True] \<and>
        length (dom_rows b) = 30 \<and>
        list_ex (\<lambda>r. row_selected r \<and> \<not> strict_eq (row_click_value r) (cur_value (w_props w)))
          (dom_rows b) \<and>
        list_ex (\<lambda>r. strict_eq (row_click_value r) (cur_value (w_props w)) \<and> \<not> row_selected r)
          (dom_rows b))"
  by code_simp

text \<open>
  C10, amended. When \<open>options[k]\<close> is the first option whose value is strictly equal to
  the current value (others may follow), the control shows the label of \<open>options[k]\<close>,
  the selected index is \<open>k\<close> and the effect that runs on opening scrolls to
  \<open>k * itemHeight\<close>; every row that a render returns is marked as selected exactly when
  the value of its option is strictly equal to the current value; and in every
  configuration reached from the mount with these props as the last ones, the rows that
  React holds as children of the options container are the rows of the last render, each
  marked exactly when its value is strictly equal to the current value. Of the rows left
  in the DOM by earlier commits nothing is said.
\<close>

theorem duplicate_values_first_match:
  assumes "k < length (options p)"
    and "strict_eq (opt_value (options p ! k)) (cur_value p)"
    and "\<forall>opt\<in>set (take k (options p)). \<not> strict_eq (opt_value opt) (cur_value p)"
    and "mount h handler p0 b0 = Inr c0" and "run h es c0 = Inr (w, b)" and "w_props w = p"
  shows "control_text (render h p s) = opt_label (options p ! k) \<and>
         selectedIndex p = int k \<and>
         (isOpen s \<and> dropdownRef b1 \<noteq> None \<longrightarrow>
            open_scroll_effect p (s, b1) =
              (s\<lparr>visibleStartIndex := max 0 (int k - \<lfloor>(of_int visibleItems :: rat) / 2\<rfloor>)\<rparr>,
               b1\<lparr>dropdownRef := Some (of_int (int k * itemHeight))\<rparr>)) \<and>
         (\<forall>j<length (render_rows h p s).
            row_selected (render_rows h p s ! j) =
              strict_eq
                (opt_value (options p ! (nat (max 0 (visibleStartIndex s - bufferItems)) + j)))
                (cur_value p)) \<and>
         option_fibers b = (if isOpen (w_state w) then render_rows h p (w_state w) else []) \<and>
         (\<forall>r\<in>set (option_fibers b).
            row_selected r = strict_eq (row_click_value r) (cur_value p))"
proof -
  have "selectedOption p = Some (options p ! k)"
    using assms(1-3) by (rule selectedOption_first)
  then have t: "control_text (render h p s) = opt_label (options p ! k)"
    by (simp add: render_def)
  have i: "selectedIndex p = int k"
    using assms(1-3) by (rule selectedIndex_first)
  have r: "row_selected (render_rows h p s' ! j) =
              strict_eq
                (opt_value (options p ! (nat (max 0 (visibleStartIndex s' - bufferItems)) + j)))
                (cur_value p) \<and>
           row_click_value (render_rows h p s' ! j) =
             opt_value (options p ! (nat (max 0 (visibleStartIndex s' - bufferItems)) + j))"
    if "j < length (render_rows h p s')" for j s'
    using render_rows_nth [OF that] by (simp add: Let_def)
  have f: "option_fibers b = (if isOpen (w_state w) then render_rows h p (w_state w) else [])"
    using mount_run(1) [OF assms(4,5)] by (simp add: assms(6))
  have m: "row_selected x = strict_eq (row_click_value x) (cur_value p)"
    if "x \<in> set (option_fibers b)" for x
  proof -
    from that f have "x \<in> set (render_rows h p (w_state w))"
      by (simp split: if_splits)
    then obtain j where "j < length (render_rows h p (w_state w))"
      and "x = render_rows h p (w_state w) ! j"
      by (auto simp: in_set_conv_nth)
    with r [of j "w_state w"] show ?thesis
      by simp
  qed
  from t i r f m show ?thesis
    by (simp add: open_scroll_effect_def Let_def)
qed

theorem duplicate_values_first_match_witness:
  "(1::nat) < length (options duplicate_props) \<and>
   strict_eq (opt_value (options duplicate_props ! 1)) (cur_value duplicate_props) \<and>
   strict_eq (opt_value (options duplicate_props ! 2)) (cur_value duplicate_props) \<and>
   list_all (\<lambda>opt. \<not> strict_eq (opt_value opt) (cur_value duplicate_props))
     (take 1 (options duplicate_props)) \<and>
   mount plain_host 0 duplicate_props fresh_browser
     = Inr (\<lparr>w_props = duplicate_props,
             w_state = \<lparr>isOpen = False, maxDropdownWidth = 52, visibleStartIndex = 0\<rparr>,
             w_handler = 0\<rparr>, mounted_browser) \<and>
   run plain_host [ClickControl]
     (\<lparr>w_props = duplicate_props,
       w_state = \<lparr>isOpen = False, maxDropdownWidth = 52, visibleStartIndex = 0\<rparr>,
       w_handler = 0\<rparr>, mounted_browser)
     = Inr (\<lparr>w_props = duplicate_props,
             w_state = \<lparr>isOpen = True, maxDropdownWidth = 52, visibleStartIndex = 0\<rparr>,
             w_handler = 0\<rparr>,
            mounted_browser
              \<lparr>dropdownRef := Some 36,
               option_fibers :=
                 [\<lparr>row_key = ''b'', row_selected = False, row_top = 0, row_height = 36,
                   row_label = ''B'', row_click_value = JString ''b''\<rparr>,
                  \<lparr>row_key = ''1'', row_selected = True, row_top = 36, row_height = 36,
                   row_label = ''A'', row_click_value = JNumber (Finite 1)\<rparr>,
                  \<lparr>row_key = ''1'', row_selected = True, row_top = 72, row_height = 36,
                   row_label = ''C'', row_click_value = JNumber (Finite 1)\<rparr>]\<rparr>) \<and>
   control_text (render plain_host duplicate_props initial_state) = ''A'' \<and>
   selectedIndex duplicate_props = 1 \<and>
   render_rows plain_host duplicate_props
       \<lparr>isOpen = True, maxDropdownWidth = 52, visibleStartIndex = 0\<rparr>
     = [\<lparr>row_key = ''b'', row_selected = False, row_top = 0, row_height = 36,
         row_label = ''B'', row_click_value = JString ''b''\<rparr>,
        \<lparr>row_key = ''1'', row_selected = True, row_top = 36, row_height = 36,
         row_label = ''A'', row_click_value = JNumber (Finite 1)\<rparr>,
        \<lparr>row_key = ''1'', row_selected = True, row_top = 72, row_height = 36,
         row_label = ''C'', row_click_value = JNumber (Finite 1)\<rparr>]"
proof -
  have a: "(1::nat) < length (options duplicate_props)"
    "strict_eq (opt_value (options duplicate_props ! 1)) (cur_value duplicate_props)"
    "\<forall>opt\<in>set (take 1 (options duplicate_props)).
       \<not> strict_eq (opt_value opt) (cur_value duplicate_props)"
    by (simp_all add: duplicate_props_def)
  have w: "w_props \<lparr>w_props = duplicate_props,
             w_state = \<lparr>isOpen = True, maxDropdownWidth = 52, visibleStartIndex = 0\<rparr>,
             w_handler = 0\<rparr> = duplicate_props"
    by simp
  note t = duplicate_values_first_match [OF a duplicate_mount duplicate_open w,
      of initial_state]
  from t have "control_text (render plain_host duplicate_props initial_state) = ''A''"
    by (simp add: duplicate_props_def)
  moreover from t have "selectedIndex duplicate_props = 1"
    by simp
  moreover from t have "render_rows plain_host duplicate_props
       \<lparr>isOpen = True, maxDropdownWidth = 52, visibleStartIndex = 0\<rparr>
     = [\<lparr>row_key = ''b'', row_selected = False, row_top = 0, row_height = 36,
         row_label = ''B'', row_click_value = JString ''b''\<rparr>,
        \<lparr>row_key = ''1'', row_selected = True, row_top = 36, row_height = 36,
         row_label = ''A'', row_click_value = JNumber (Finite 1)\<rparr>,
        \<lparr>row_key = ''1'', row_selected = True, row_top = 72, row_height = 36,
         row_label = ''C'', row_click_value = JNumber (Finite 1)\<rparr>]"
    by simp
  ultimately show ?thesis
    using a(1,2) duplicate_mount duplicate_open
    by (intro conjI) (simp_all add: duplicate_props_def)
qed

end
